theory Spec2Isabelle
  imports Main "HOL-Library.List_Lexorder" "HOL-Library.Char_ord" "HOL-Library.Option_ord"
    "HOL-Library.Multiset"
begin

section \<open>JavaScript values and the string primitives the server uses\<close>

text \<open>
  The body parsers (urlencoded with \<open>extended: true\<close>, and JSON) hand the handlers
  JavaScript values. \<open>JNum\<close> stands for an integer-valued number (below \<open>10^21\<close> in
  magnitude, where \<open>Number.prototype.toString\<close> prints plain decimal digits).
  Strings are byte lists; the server only concatenates, compares and slices them.
\<close>

datatype jsval =
    JUndefined
  | JNull
  | JBool bool
  | JNum int
  | JStr string
  | JArr "jsval list"
  | JObj "(string \<times> jsval) list"

text \<open>
  Errors that reach the framework's error path: the exceptions a handler or middleware
  throws, and the error with which a body parser refuses a payload.
\<close>

datatype js_error = TypeError | SqliteError | FsError | BadRequest

fun truthy :: "jsval \<Rightarrow> bool" where
  "truthy JUndefined = False"
| "truthy JNull = False"
| "truthy (JBool b) = b"
| "truthy (JNum n) = (n \<noteq> 0)"
| "truthy (JStr s) = (s \<noteq> [])"
| "truthy (JArr xs) = True"
| "truthy (JObj kvs) = True"

text \<open>\<open>a || b\<close> on values.\<close>

definition js_or :: "jsval \<Rightarrow> jsval \<Rightarrow> jsval" where
  "js_or a b = (if truthy a then a else b)"

text \<open>
  \<open>a || 'literal'\<close> where \<open>a\<close> is a string or \<open>undefined\<close> (\<open>None\<close>): the empty
  string is falsy as well.
\<close>

definition or_str :: "string option \<Rightarrow> string \<Rightarrow> string" where
  "or_str a d = (case a of None \<Rightarrow> d | Some s \<Rightarrow> if s = [] then d else s)"

text \<open>\<open>a || b\<close> where both are strings or \<open>undefined\<close>.\<close>

definition or_opt :: "string option \<Rightarrow> string option \<Rightarrow> string option" where
  "or_opt a b = (case a of None \<Rightarrow> b | Some s \<Rightarrow> if s = [] then b else a)"

definition startsWith :: "string \<Rightarrow> string \<Rightarrow> bool" where
  "startsWith s p = (take (length p) s = p)"

text \<open>\<open>s.slice(-k)\<close>: the last \<open>k\<close> characters, the whole string when it is shorter.\<close>

definition slice_last :: "nat \<Rightarrow> string \<Rightarrow> string" where
  "slice_last k s = drop (length s - k) s"

text \<open>\<open>s.split(',')[0]\<close>: the text before the first comma.\<close>

definition split_comma_first :: "string \<Rightarrow> string" where
  "split_comma_first s = takeWhile (\<lambda>c. c \<noteq> CHR '','') s"

definition digit_char :: "nat \<Rightarrow> char" where
  "digit_char d = ''0123456789'' ! d"

fun nat_toString :: "nat \<Rightarrow> string" where
  "nat_toString n =
     (if n < 10 then [digit_char n] else nat_toString (n div 10) @ [digit_char (n mod 10)])"

declare nat_toString.simps [simp del]

definition int_toString :: "int \<Rightarrow> string" where
  "int_toString i = (if i < 0 then CHR ''-'' # nat_toString (nat (- i)) else nat_toString (nat i))"

fun join_strs :: "string \<Rightarrow> string list \<Rightarrow> string" where
  "join_strs sep [] = []"
| "join_strs sep [x] = x"
| "join_strs sep (x # y # ys) = x @ sep @ join_strs sep (y # ys)"

text \<open>
  \<open>ToString\<close> on a value, and the element strings \<open>Array.prototype.join\<close> builds:
  \<open>undefined\<close> and \<open>null\<close> elements give the empty string, a nested array is joined
  with a comma, a plain object prints as \<open>[object Object]\<close> unless it carries an own
  \<open>toString\<close> property, which a parsed body can only fill with a non-callable value, so
  that the conversion to a primitive throws.
\<close>

fun js_toString :: "jsval \<Rightarrow> js_error + string"
and join_elems :: "jsval list \<Rightarrow> js_error + string list" where
  "js_toString JUndefined = Inr ''undefined''"
| "js_toString JNull = Inr ''null''"
| "js_toString (JBool b) = Inr (if b then ''true'' else ''false'')"
| "js_toString (JNum n) = Inr (int_toString n)"
| "js_toString (JStr s) = Inr s"
| "js_toString (JArr xs) =
     (case join_elems xs of Inl e \<Rightarrow> Inl e | Inr ss \<Rightarrow> Inr (join_strs '','' ss))"
| "js_toString (JObj kvs) =
     (if ''toString'' \<in> set (map fst kvs) then Inl TypeError else Inr ''[object Object]'')"
| "join_elems [] = Inr []"
| "join_elems (JUndefined # xs) =
     (case join_elems xs of Inl e \<Rightarrow> Inl e | Inr ss \<Rightarrow> Inr ([] # ss))"
| "join_elems (JNull # xs) =
     (case join_elems xs of Inl e \<Rightarrow> Inl e | Inr ss \<Rightarrow> Inr ([] # ss))"
| "join_elems (x # xs) =
     (case js_toString x of
        Inl e \<Rightarrow> Inl e
      | Inr s \<Rightarrow> (case join_elems xs of Inl e \<Rightarrow> Inl e | Inr ss \<Rightarrow> Inr (s # ss)))"

text \<open>
  \<open>v.join(sep)\<close> as the handler calls it: only an array has a callable \<open>join\<close>; on any
  other value the call throws a TypeError (\<open>join\<close> is undefined, or an own property that
  is not a function).
\<close>

definition js_join :: "jsval \<Rightarrow> string \<Rightarrow> js_error + string" where
  "js_join v sep =
     (case v of
        JArr xs \<Rightarrow> (case join_elems xs of Inl e \<Rightarrow> Inl e | Inr ss \<Rightarrow> Inr (join_strs sep ss))
      | _ \<Rightarrow> Inl TypeError)"

section \<open>The persistence store\<close>

text \<open>
  The three tables of \<open>db.exec(CREATE TABLE IF NOT EXISTS ...)\<close>. Every column but the
  keys is a nullable \<open>TEXT\<close>: \<open>None\<close> is SQL \<open>NULL\<close>. \<open>admins\<close> has
  \<open>username TEXT PRIMARY KEY\<close>, so it is a map from the username to the password.
  The two \<open>AUTOINCREMENT\<close> counters hold the largest id handed out so far.
  \<open>accepts_writes\<close> is the store's side of an \<open>INSERT\<close>: when it is false
  (disk full, file read-only, database locked) \<open>run\<close> throws. The \<open>SELECT\<close>
  statements are taken to succeed.
\<close>

type_synonym sql_text = "string option"

record submission =
  s_id :: nat
  s_name :: sql_text
  s_phone :: sql_text
  s_email :: sql_text
  s_services :: sql_text
  s_message :: sql_text
  s_customer_number :: sql_text
  s_submission_date :: sql_text
  s_created_at :: sql_text

record visit =
  v_id :: nat
  v_ip :: sql_text
  v_ua :: sql_text
  v_path :: sql_text
  v_ts :: sql_text

record database =
  submissions :: "submission list"
  visits :: "visit list"
  admins :: "string \<rightharpoonup> string"
  submissions_seq :: nat
  visits_seq :: nat
  accepts_writes :: bool

text \<open>
  Time. \<open>wall\<close> is the wall clock, in milliseconds since the epoch, at each instant of
  the process; a request arrives at the instant \<open>arrival\<close> and its handler calls
  \<open>Date.now()\<close> \<open>elapsed\<close> instants later. The other two readings are texts built
  outside the server: \<open>new Date().toLocaleString('fa-IR')\<close> and SQLite's
  \<open>datetime('now')\<close>, of the form \<open>YYYY-MM-DD HH:MM:SS\<close>.
\<close>

record clock =
  wall :: "nat \<Rightarrow> nat"
  arrival :: nat
  elapsed :: nat
  toLocaleString_fa_IR :: string
  datetime_now :: string

definition Date_now :: "clock \<Rightarrow> nat" where
  "Date_now clk = wall clk (arrival clk + elapsed clk)"

definition ADMIN_USERNAME :: string where
  "ADMIN_USERNAME = ''admin''"

definition ADMIN_PASSWORD :: string where
  "ADMIN_PASSWORD = ''erfan9028@''"

text \<open>\<open>INSERT OR REPLACE INTO admins (username, password) VALUES (?, ?)\<close> at startup.\<close>

definition insert_or_replace_admin :: "database \<Rightarrow> string \<Rightarrow> string \<Rightarrow> database" where
  "insert_or_replace_admin d u p = d\<lparr>admins := (admins d)(u \<mapsto> p)\<rparr>"

definition seed_admin :: "database \<Rightarrow> database" where
  "seed_admin d = insert_or_replace_admin d ADMIN_USERNAME ADMIN_PASSWORD"

text \<open>\<open>INSERT INTO visits (ip, ua, path) VALUES (?, ?, ?)\<close>; \<open>ts\<close> takes its default.\<close>

definition insert_visit ::
  "clock \<Rightarrow> database \<Rightarrow> string \<Rightarrow> string \<Rightarrow> string \<Rightarrow> js_error + database" where
  "insert_visit clk d ip ua pathStr =
     (if accepts_writes d then
        Inr (d\<lparr>visits := visits d @
                 [\<lparr>v_id = Suc (visits_seq d), v_ip = Some ip, v_ua = Some ua,
                   v_path = Some pathStr, v_ts = Some (datetime_now clk)\<rparr>],
               visits_seq := Suc (visits_seq d)\<rparr>)
      else Inl SqliteError)"

text \<open>
  \<open>INSERT INTO submissions (name, phone, email, services, message, customer_number,
  submission_date) VALUES (?, ?, ?, ?, ?, ?, ?)\<close>; \<open>created_at\<close> takes its default.
\<close>

definition insert_submission ::
  "clock \<Rightarrow> database \<Rightarrow> string \<Rightarrow> string \<Rightarrow> string \<Rightarrow> string \<Rightarrow> string \<Rightarrow> string \<Rightarrow> string
     \<Rightarrow> js_error + database" where
  "insert_submission clk d nm ph em sv msg cn sd =
     (if accepts_writes d then
        Inr (d\<lparr>submissions := submissions d @
                 [\<lparr>s_id = Suc (submissions_seq d), s_name = Some nm, s_phone = Some ph,
                   s_email = Some em, s_services = Some sv, s_message = Some msg,
                   s_customer_number = Some cn, s_submission_date = Some sd,
                   s_created_at = Some (datetime_now clk)\<rparr>],
               submissions_seq := Suc (submissions_seq d)\<rparr>)
      else Inl SqliteError)"

text \<open>
  The read side of the queries. \<open>date(ts)\<close> on the text \<open>datetime('now')\<close> stores is
  its first ten characters. \<open>ORDER BY k DESC\<close> compares texts bytewise with \<open>NULL\<close>
  below every text; the order among equal keys is the one this sort happens to give
  (SQL leaves it open).
\<close>

definition sql_date :: "sql_text \<Rightarrow> sql_text" where
  "sql_date t = map_option (take 10) t"

definition sql_eq :: "sql_text \<Rightarrow> sql_text \<Rightarrow> bool" where
  "sql_eq a b = (a \<noteq> None \<and> b \<noteq> None \<and> a = b)"

definition order_by_desc :: "('r \<Rightarrow> 'k::linorder) \<Rightarrow> 'r list \<Rightarrow> 'r list" where
  "order_by_desc key rows = rev (sort_key key rows)"

definition group_count :: "('r \<Rightarrow> 'k) \<Rightarrow> 'r list \<Rightarrow> ('k \<times> nat) list" where
  "group_count key rows =
     map (\<lambda>k. (k, length (filter (\<lambda>r. key r = k) rows))) (remdups (map key rows))"

definition count_today :: "clock \<Rightarrow> visit list \<Rightarrow> nat" where
  "count_today clk vs =
     length (filter (\<lambda>v. sql_eq (sql_date (v_ts v)) (sql_date (Some (datetime_now clk)))) vs)"

section \<open>The landing-page file\<close>

text \<open>
  \<open>public/landing.html\<close>: its text, or \<open>None\<close> when there is no such file.
  \<open>readFileSync\<close> and \<open>writeFileSync\<close> throw when the file system refuses.
\<close>

record filesystem =
  landing_html :: "string option"
  fs_readable :: bool
  fs_writable :: bool

definition readFileSync :: "filesystem \<Rightarrow> js_error + string" where
  "readFileSync f =
     (case landing_html f of
        None \<Rightarrow> Inl FsError
      | Some c \<Rightarrow> if fs_readable f then Inr c else Inl FsError)"

definition writeFileSync :: "filesystem \<Rightarrow> string \<Rightarrow> js_error + filesystem" where
  "writeFileSync f data =
     (if fs_writable f then Inr (f\<lparr>landing_html := Some data\<rparr>) else Inl FsError)"

section \<open>Requests, sessions and responses\<close>

text \<open>
  \<open>req.session\<close> holds the marker \<open>user\<close> (\<open>None\<close> while it is unset); the request
  carries no session object at all when \<open>req.session\<close> is undefined.
\<close>

record session =
  user :: "string option"

datatype http_method = GET | HEAD | POST | OTHER

text \<open>
  \<open>req.body\<close>. The login and editor forms send their fields as strings. The contact
  form's text fields are strings or absent (\<open>None\<close> reads as \<open>undefined\<close>), and
  \<open>services\<close> is whatever value the parser built.
\<close>

record body =
  username :: string
  password :: string
  content :: string
  name :: "string option"
  phone :: "string option"
  email :: "string option"
  message :: "string option"
  services :: jsval

record request =
  req_method :: http_method
  req_path :: string
  x_forwarded_for :: "string option"
  user_agent :: "string option"
  remoteAddress :: "string option"
  req_body :: body
  req_session :: "session option"

record stats =
  total :: nat
  today :: nat
  byDay :: "(sql_text \<times> nat) list"
  byPath :: "(sql_text \<times> nat) list"

record submit_ack =
  ok :: bool
  customerNumber :: string
  submissionDate :: string

text \<open>The templates with the locals \<open>res.render\<close> passes them.\<close>

datatype view =
    LoginView "string option"
  | DashboardView nat nat nat "submission list"
  | SubmissionsView "submission list"
  | VisitsView "visit list"
  | EditorView string

datatype response =
    Redirect string
  | Render nat view
  | JsonAck submit_ack
  | JsonStats stats
  | SendFile string
  | NotFound

text \<open>
  The second variant of the server also holds an SMTP transporter, set up from the
  process environment, and hands it notification mails; \<open>outbox\<close> lists the mails
  handed over so far.
\<close>

record smtp_env =
  env_SMTP_HOST :: "string option"
  env_SMTP_USER :: "string option"
  env_SMTP_PASS :: "string option"
  env_SMTP_FROM :: "string option"
  env_CONTACT_TO :: "string option"
  env_SMTP_TO :: "string option"

record mail =
  mail_from :: "string option"
  mail_to :: string
  mail_subject :: string
  mail_text :: string
  mail_html :: string

record world =
  db :: database
  fs :: filesystem
  env :: smtp_env
  outbox :: "mail list"

text \<open>
  What a handler leaves behind: the response, the store and file system, and
  \<open>req.session\<close> (\<open>None\<close> once destroyed); or the exception it threw, with the
  store and file system as they were at the throw.
\<close>

type_synonym result = "(js_error \<times> world) + (response \<times> world \<times> session option)"

text \<open>The message of the failed login, as UTF-8 bytes.\<close>

definition LOGIN_ERROR :: string where
  "LOGIN_ERROR = map char_of
     [217, 134, 216, 167, 217, 133, 32, 218, 169, 216, 167, 216, 177, 216, 168, 216, 177,
      219, 140, 32, 219, 140, 216, 167, 32, 216, 177, 217, 133, 216, 178, 32, 216, 185,
      216, 168, 217, 136, 216, 177, 32, 217, 134, 216, 167, 216, 175, 216, 177, 216, 179,
      216, 170, 32, 216, 167, 216, 179, 216, 170 :: nat]"

section \<open>Middleware and handlers\<close>

text \<open>
  The visit-tracking middleware; \<open>next\<close> is the rest of the chain. The three
  constants it binds come first.
\<close>

definition visit_ip :: "request \<Rightarrow> string" where
  "visit_ip req =
     or_str (or_opt (map_option split_comma_first (x_forwarded_for req)) (remoteAddress req))
       ''unknown''"

definition visit_ua :: "request \<Rightarrow> string" where
  "visit_ua req = or_str (user_agent req) ''unknown''"

definition visit_pathStr :: "request \<Rightarrow> string" where
  "visit_pathStr req = or_str (Some (req_path req)) ''/''"

definition track_visits :: "clock \<Rightarrow> world \<Rightarrow> request \<Rightarrow> (world \<Rightarrow> result) \<Rightarrow> result" where
  "track_visits clk w req next =
     (if startsWith (req_path req) ''/admin'' \<or> startsWith (req_path req) ''/api'' then next w
      else
        case insert_visit clk (db w) (visit_ip req) (visit_ua req) (visit_pathStr req) of
          Inl e \<Rightarrow> Inl (e, w)
        | Inr d \<Rightarrow> next (w\<lparr>db := d\<rparr>))"

definition requireAuth :: "world \<Rightarrow> request \<Rightarrow> result \<Rightarrow> result" where
  "requireAuth w req next =
     (if Option.bind (req_session req) user = Some ADMIN_USERNAME then next
      else Inr (Redirect ''/admin/login'', w, req_session req))"

definition get_admin_login :: "clock \<Rightarrow> world \<Rightarrow> request \<Rightarrow> result" where
  "get_admin_login clk w req = Inr (Render 200 (LoginView None), w, req_session req)"

definition post_admin_login :: "clock \<Rightarrow> world \<Rightarrow> request \<Rightarrow> result" where
  "post_admin_login clk w req =
     (let row = admins (db w) (username (req_body req)) in
      if (case row of None \<Rightarrow> False | Some row_password \<Rightarrow> row_password = password (req_body req))
      then
        (case req_session req of
           None \<Rightarrow> Inl (TypeError, w)
         | Some s \<Rightarrow> Inr (Redirect ''/admin'', w, Some (s\<lparr>user := Some ADMIN_USERNAME\<rparr>)))
      else Inr (Render 401 (LoginView (Some LOGIN_ERROR)), w, req_session req))"

definition post_admin_logout :: "clock \<Rightarrow> world \<Rightarrow> request \<Rightarrow> result" where
  "post_admin_logout clk w req =
     (case req_session req of
        None \<Rightarrow> Inl (TypeError, w)
      | Some s \<Rightarrow> Inr (Redirect ''/admin/login'', w, None))"

definition get_admin :: "clock \<Rightarrow> world \<Rightarrow> request \<Rightarrow> result" where
  "get_admin clk w req =
     (let totalVisits = length (visits (db w));
          todayVisits = count_today clk (visits (db w));
          totalSubmissions = length (submissions (db w));
          last10 = take 10 (order_by_desc s_id (submissions (db w)))
      in Inr (Render 200 (DashboardView totalVisits todayVisits totalSubmissions last10),
              w, req_session req))"

definition get_admin_submissions :: "clock \<Rightarrow> world \<Rightarrow> request \<Rightarrow> result" where
  "get_admin_submissions clk w req =
     Inr (Render 200 (SubmissionsView (order_by_desc s_id (submissions (db w)))),
          w, req_session req)"

definition get_admin_visits :: "clock \<Rightarrow> world \<Rightarrow> request \<Rightarrow> result" where
  "get_admin_visits clk w req =
     Inr (Render 200 (VisitsView (take 1000 (order_by_desc v_id (visits (db w))))),
          w, req_session req)"

definition get_admin_editor :: "clock \<Rightarrow> world \<Rightarrow> request \<Rightarrow> result" where
  "get_admin_editor clk w req =
     (let content0 = (case readFileSync (fs w) of Inl e \<Rightarrow> [] | Inr c \<Rightarrow> c)
      in Inr (Render 200 (EditorView content0), w, req_session req))"

definition post_admin_editor :: "clock \<Rightarrow> world \<Rightarrow> request \<Rightarrow> result" where
  "post_admin_editor clk w req =
     (case writeFileSync (fs w) (content (req_body req)) of
        Inl e \<Rightarrow> Inl (e, w)
      | Inr f \<Rightarrow> Inr (Redirect ''/admin/editor'', (w\<lparr>fs := f\<rparr>), req_session req))"

text \<open>The services normalisation of \<open>POST /api/submit\<close>, up to \<open>servicesCsv\<close>.\<close>

definition servicesCsv :: "jsval \<Rightarrow> js_error + string" where
  "servicesCsv sv =
     (let services0 = js_or sv (JArr []);
          services1 = (case services0 of JStr s \<Rightarrow> JArr [services0] | _ \<Rightarrow> services0)
      in js_join services1 '', '')"

definition make_customerNumber :: "clock \<Rightarrow> string" where
  "make_customerNumber clk = ''JN'' @ slice_last 6 (nat_toString (Date_now clk))"

definition post_api_submit :: "clock \<Rightarrow> world \<Rightarrow> request \<Rightarrow> result" where
  "post_api_submit clk w req =
     (let b = req_body req in
      case servicesCsv (services b) of
        Inl e \<Rightarrow> Inl (e, w)
      | Inr csv \<Rightarrow>
          (let cn = make_customerNumber clk;
               sd = toLocaleString_fa_IR clk
           in (case insert_submission clk (db w) (or_str (name b) []) (or_str (phone b) [])
                      (or_str (email b) []) csv (or_str (message b) []) cn sd of
                 Inl e \<Rightarrow> Inl (e, w)
               | Inr d \<Rightarrow>
                   Inr (JsonAck \<lparr>ok = True, customerNumber = cn, submissionDate = sd\<rparr>,
                        (w\<lparr>db := d\<rparr>), req_session req))))"

text \<open>
  The handler of the variant with mail notification: the same steps, and between the
  insert and the response a mail is composed and handed to the transporter when one is
  configured. Sending is not awaited and the block sits in a \<open>try\<close>, so nothing of
  it reaches the response. \<open>trim\<close> is modelled on ASCII white space.
\<close>

definition mailer_configured :: "smtp_env \<Rightarrow> bool" where
  "mailer_configured e =
     (or_str (env_SMTP_HOST e) [] \<noteq> [] \<and> or_str (env_SMTP_USER e) [] \<noteq> []
      \<and> or_str (env_SMTP_PASS e) [] \<noteq> [])"

definition CONTACT_TO :: "smtp_env \<Rightarrow> string" where
  "CONTACT_TO e = or_str (or_opt (env_CONTACT_TO e) (env_SMTP_TO e)) []"

definition NL :: string where
  "NL = [CHR 0x0A]"

definition js_trim :: "string \<Rightarrow> string" where
  "js_trim s =
     (let ws = (\<lambda>c. c \<in> set [CHR '' '', CHR 0x09, CHR 0x0A, CHR 0x0B, CHR 0x0C, CHR 0x0D])
      in rev (dropWhile ws (rev (dropWhile ws s))))"

definition replace_newlines :: "string \<Rightarrow> string \<Rightarrow> string" where
  "replace_newlines s by = concat (map (\<lambda>c. if c = CHR 0x0A then by else [c]) s)"

definition compose_mail ::
  "smtp_env \<Rightarrow> body \<Rightarrow> string \<Rightarrow> string \<Rightarrow> string \<Rightarrow> mail" where
  "compose_mail e b csv cn sd =
     (let fromAddr = or_opt (env_SMTP_FROM e) (env_SMTP_USER e);
          subject = js_trim (''New contact (#'' @ cn @ '') - '' @ or_str (name b) []);
          text = ''Name: '' @ or_str (name b) [] @ NL @ ''Phone: '' @ or_str (phone b) [] @ NL
                 @ ''Email: '' @ or_str (email b) [] @ NL
                 @ ''Services: '' @ or_str (Some csv) ''-'' @ NL
                 @ ''Message:'' @ NL @ or_str (message b) [] @ NL @ NL
                 @ ''Customer No: '' @ cn @ NL @ ''Date: '' @ sd;
          html = NL @ ''        <h3>New Contact</h3>'' @ NL
                 @ ''        <p><strong>Name:</strong> '' @ or_str (name b) [] @ ''</p>'' @ NL
                 @ ''        <p><strong>Phone:</strong> '' @ or_str (phone b) [] @ ''</p>'' @ NL
                 @ ''        <p><strong>Email:</strong> '' @ or_str (email b) [] @ ''</p>'' @ NL
                 @ ''        <p><strong>Services:</strong> '' @ or_str (Some csv) ''-'' @ ''</p>'' @ NL
                 @ ''        <p><strong>Message:</strong><br>''
                 @ replace_newlines (or_str (message b) []) ''<br>'' @ ''</p>'' @ NL
                 @ ''        <hr>'' @ NL
                 @ ''        <p>Customer No: <strong>'' @ cn @ ''</strong></p>'' @ NL
                 @ ''        <p>Date: '' @ sd @ ''</p>'' @ NL @ ''      ''
      in \<lparr>mail_from = fromAddr, mail_to = CONTACT_TO e, mail_subject = subject,
          mail_text = text, mail_html = html\<rparr>)"

definition post_api_submit_notify :: "clock \<Rightarrow> world \<Rightarrow> request \<Rightarrow> result" where
  "post_api_submit_notify clk w req =
     (let b = req_body req in
      case servicesCsv (services b) of
        Inl e \<Rightarrow> Inl (e, w)
      | Inr csv \<Rightarrow>
          (let cn = make_customerNumber clk;
               sd = toLocaleString_fa_IR clk
           in (case insert_submission clk (db w) (or_str (name b) []) (or_str (phone b) [])
                      (or_str (email b) []) csv (or_str (message b) []) cn sd of
                 Inl e \<Rightarrow> Inl (e, w)
               | Inr d \<Rightarrow>
                   (let w1 = w\<lparr>db := d\<rparr>;
                        w2 = (if mailer_configured (env w1) \<and> CONTACT_TO (env w1) \<noteq> []
                              then w1\<lparr>outbox := outbox w1 @ [compose_mail (env w1) b csv cn sd]\<rparr>
                              else w1)
                    in Inr (JsonAck \<lparr>ok = True, customerNumber = cn, submissionDate = sd\<rparr>,
                            w2, req_session req)))))"

definition get_api_stats :: "clock \<Rightarrow> world \<Rightarrow> request \<Rightarrow> result" where
  "get_api_stats clk w req =
     (let by_day = take 30 (order_by_desc fst
                     (group_count (\<lambda>v. sql_date (v_ts v)) (visits (db w))));
          by_path = order_by_desc snd (group_count v_path (visits (db w)));
          today0 = count_today clk (visits (db w));
          total0 = length (visits (db w))
      in Inr (JsonStats \<lparr>total = total0, today = today0, byDay = by_day, byPath = by_path\<rparr>,
              w, req_session req))"

definition get_root :: "clock \<Rightarrow> world \<Rightarrow> request \<Rightarrow> result" where
  "get_root clk w req = Inr (SendFile ''public/index.html'', w, req_session req)"

section \<open>Routing\<close>

text \<open>
  The framework matches a route path without regard to ASCII case and with an optional
  trailing slash, and lets a \<open>GET\<close> route answer \<open>HEAD\<close>. The routes are tried in the
  order the source registers them.
\<close>

definition toLowerCase_char :: "char \<Rightarrow> char" where
  "toLowerCase_char c =
     (case map_of (zip ''ABCDEFGHIJKLMNOPQRSTUVWXYZ'' ''abcdefghijklmnopqrstuvwxyz'') c of
        None \<Rightarrow> c
      | Some l \<Rightarrow> l)"

definition route_matches :: "string \<Rightarrow> string \<Rightarrow> bool" where
  "route_matches pat p =
     (let q = map toLowerCase_char p in
      if pat \<noteq> [] \<and> last pat = CHR ''/'' then q = pat \<or> q = butlast pat
      else q = pat \<or> q = pat @ ''/'')"

definition method_matches :: "http_method \<Rightarrow> http_method \<Rightarrow> bool" where
  "method_matches rm m = (m = rm \<or> (rm = GET \<and> m = HEAD))"

text \<open>The two variants of the server differ in the handler of \<open>POST /api/submit\<close> only.\<close>

datatype variant = Plain | Notifying

datatype route =
    AdminLoginGet
  | AdminLoginPost
  | AdminLogout
  | Admin
  | AdminSubmissions
  | AdminVisits
  | AdminEditorGet
  | AdminEditorPost
  | ApiSubmit
  | ApiStats
  | Root

definition routes :: "(http_method \<times> string \<times> route) list" where
  "routes =
     [(GET, ''/admin/login'', AdminLoginGet),
      (POST, ''/admin/login'', AdminLoginPost),
      (POST, ''/admin/logout'', AdminLogout),
      (GET, ''/admin'', Admin),
      (GET, ''/admin/submissions'', AdminSubmissions),
      (GET, ''/admin/visits'', AdminVisits),
      (GET, ''/admin/editor'', AdminEditorGet),
      (POST, ''/admin/editor'', AdminEditorPost),
      (POST, ''/api/submit'', ApiSubmit),
      (GET, ''/api/stats'', ApiStats),
      (GET, ''/'', Root)]"

text \<open>The last handler of each route, and the chain the source registers for it.\<close>

fun submit_handler :: "variant \<Rightarrow> clock \<Rightarrow> world \<Rightarrow> request \<Rightarrow> result" where
  "submit_handler Plain = post_api_submit"
| "submit_handler Notifying = post_api_submit_notify"

fun handler :: "variant \<Rightarrow> route \<Rightarrow> clock \<Rightarrow> world \<Rightarrow> request \<Rightarrow> result" where
  "handler v AdminLoginGet = get_admin_login"
| "handler v AdminLoginPost = post_admin_login"
| "handler v AdminLogout = post_admin_logout"
| "handler v Admin = get_admin"
| "handler v AdminSubmissions = get_admin_submissions"
| "handler v AdminVisits = get_admin_visits"
| "handler v AdminEditorGet = get_admin_editor"
| "handler v AdminEditorPost = post_admin_editor"
| "handler v ApiSubmit = submit_handler v"
| "handler v ApiStats = get_api_stats"
| "handler v Root = get_root"

fun run_route :: "variant \<Rightarrow> route \<Rightarrow> clock \<Rightarrow> world \<Rightarrow> request \<Rightarrow> result" where
  "run_route v AdminLoginGet clk w req = get_admin_login clk w req"
| "run_route v AdminLoginPost clk w req = post_admin_login clk w req"
| "run_route v AdminLogout clk w req = requireAuth w req (post_admin_logout clk w req)"
| "run_route v Admin clk w req = requireAuth w req (get_admin clk w req)"
| "run_route v AdminSubmissions clk w req = requireAuth w req (get_admin_submissions clk w req)"
| "run_route v AdminVisits clk w req = requireAuth w req (get_admin_visits clk w req)"
| "run_route v AdminEditorGet clk w req = requireAuth w req (get_admin_editor clk w req)"
| "run_route v AdminEditorPost clk w req = requireAuth w req (post_admin_editor clk w req)"
| "run_route v ApiSubmit clk w req = submit_handler v clk w req"
| "run_route v ApiStats clk w req = requireAuth w req (get_api_stats clk w req)"
| "run_route v Root clk w req = get_root clk w req"

definition find_route :: "request \<Rightarrow> route option" where
  "find_route req =
     map_option (\<lambda>(rm, pat, r). r)
       (find (\<lambda>(rm, pat, r). method_matches rm (req_method req) \<and> route_matches pat (req_path req))
          routes)"

definition router :: "variant \<Rightarrow> clock \<Rightarrow> world \<Rightarrow> request \<Rightarrow> result" where
  "router v clk w req =
     (case find_route req of
        None \<Rightarrow> Inr (NotFound, w, req_session req)
      | Some r \<Rightarrow> run_route v r clk w req)"

text \<open>
  The chain from the visit middleware on: the visit middleware, then
  \<open>express.static\<close> over the public directory, then the routes. Which requests the
  static middleware answers depends on files the model does not hold, so it is a
  parameter: \<open>Some\<close> response ends the chain.
\<close>

definition dispatch ::
  "variant \<Rightarrow> (world \<Rightarrow> request \<Rightarrow> response option) \<Rightarrow> clock \<Rightarrow> world \<Rightarrow> request
     \<Rightarrow> result" where
  "dispatch v static clk w req =
     track_visits clk w req
       (\<lambda>w'. case static w' req of
                Some resp \<Rightarrow> Inr (resp, w', req_session req)
              | None \<Rightarrow> router v clk w' req)"

text \<open>
  A request as it comes in, before the middleware that the source registers ahead of the
  visit middleware: the two body parsers and the session middleware (\<open>helmet\<close> and
  \<open>morgan\<close>, registered first, set response headers and write the access log and end
  no request). The parsers either build \<open>req.body\<close> from the payload or refuse it
  (malformed JSON, a body over the limit) and end the request with an error. The session
  middleware attaches \<open>req.session\<close> from the session store, or ends the request
  with the store's error.
\<close>

datatype payload = Malformed | Parsed body

record incoming =
  in_method :: http_method
  in_path :: string
  in_x_forwarded_for :: "string option"
  in_user_agent :: "string option"
  in_remoteAddress :: "string option"
  in_payload :: payload
  in_session :: "js_error + session option"

definition body_parsers :: "incoming \<Rightarrow> js_error + body" where
  "body_parsers inc = (case in_payload inc of Malformed \<Rightarrow> Inl BadRequest | Parsed b \<Rightarrow> Inr b)"

definition session_middleware :: "incoming \<Rightarrow> js_error + session option" where
  "session_middleware inc = in_session inc"

text \<open>The application: the middleware and routes in the order the source registers them.\<close>

definition app ::
  "variant \<Rightarrow> (world \<Rightarrow> request \<Rightarrow> response option) \<Rightarrow> clock \<Rightarrow> world \<Rightarrow> incoming
     \<Rightarrow> result" where
  "app v static clk w inc =
     (case body_parsers inc of
        Inl e \<Rightarrow> Inl (e, w)
      | Inr b \<Rightarrow>
          (case session_middleware inc of
             Inl e \<Rightarrow> Inl (e, w)
           | Inr s \<Rightarrow>
               dispatch v static clk w
                 \<lparr>req_method = in_method inc, req_path = in_path inc,
                  x_forwarded_for = in_x_forwarded_for inc, user_agent = in_user_agent inc,
                  remoteAddress = in_remoteAddress inc, req_body = b, req_session = s\<rparr>))"

text \<open>
  The incoming request that the parsers and the session middleware turn into \<open>req\<close>:
  its payload parses to the body of \<open>req\<close> and the session attached is that of
  \<open>req\<close>.
\<close>

definition arriving :: "request \<Rightarrow> incoming" where
  "arriving req =
     \<lparr>in_method = req_method req, in_path = req_path req,
      in_x_forwarded_for = x_forwarded_for req, in_user_agent = user_agent req,
      in_remoteAddress = remoteAddress req, in_payload = Parsed (req_body req),
      in_session = Inr (req_session req)\<rparr>"

text \<open>
  A client's requests in sequence. The session middleware hands each request the
  client's stored session, or a fresh one when there is none; a request that ends in an
  error leaves the session as it was.
\<close>

definition load_session :: "session option \<Rightarrow> session" where
  "load_session stored = (case stored of None \<Rightarrow> \<lparr>user = None\<rparr> | Some s \<Rightarrow> s)"

fun serve ::
  "variant \<Rightarrow> (world \<Rightarrow> request \<Rightarrow> response option) \<Rightarrow> world \<Rightarrow> session option
     \<Rightarrow> (clock \<times> incoming) list \<Rightarrow> world \<times> session option" where
  "serve v static w stored [] = (w, stored)"
| "serve v static w stored ((clk, inc) # rest) =
     (case app v static clk w (inc\<lparr>in_session := Inr (Some (load_session stored))\<rparr>) of
        Inl (e, w') \<Rightarrow> serve v static w' stored rest
      | Inr (resp, w', stored') \<Rightarrow> serve v static w' stored' rest)"

text \<open>The store and file system a request leaves behind, whichever way it ended.\<close>

definition world_after :: "result \<Rightarrow> world" where
  "world_after r = (case r of Inl (e, w) \<Rightarrow> w | Inr (resp, w, s) \<Rightarrow> w)"

text \<open>A static middleware that answers no request (an empty public directory).\<close>

definition no_static :: "world \<Rightarrow> request \<Rightarrow> response option" where
  "no_static w req = None"

section \<open>Sample inputs\<close>

text \<open>
  Two clocks (one late in 2023, one seconds after the epoch), a freshly seeded store with
  a writable landing page, the same world with a store that refuses writes, three visits
  on two days, an incoming request with a payload the parsers refuse, and requests built
  from a method, a path and a session; the theorems below are instantiated at them.
\<close>

definition sample_wall :: "nat \<Rightarrow> nat" where
  "sample_wall k = 1700000000000 + k"

definition sample_wall_1970 :: "nat \<Rightarrow> nat" where
  "sample_wall_1970 k = k"

abbreviation sample_clock :: clock where
  "sample_clock \<equiv>
     \<lparr>wall = sample_wall, arrival = 100, elapsed = 23,
      toLocaleString_fa_IR = ''1402/8/23, 22:13:20'', datetime_now = ''2023-11-14 22:13:20''\<rparr>"

abbreviation sample_clock_1970 :: clock where
  "sample_clock_1970 \<equiv>
     \<lparr>wall = sample_wall_1970, arrival = 4200, elapsed = 17,
      toLocaleString_fa_IR = ''1348/10/11, 3:30:04'', datetime_now = ''1970-01-01 00:00:04''\<rparr>"

abbreviation sample_db :: database where
  "sample_db \<equiv>
     \<lparr>submissions = [], visits = [], admins = [''admin'' \<mapsto> ''erfan9028@''],
      submissions_seq = 0, visits_seq = 0, accepts_writes = True\<rparr>"

abbreviation sample_env :: smtp_env where
  "sample_env \<equiv>
     \<lparr>env_SMTP_HOST = None, env_SMTP_USER = None, env_SMTP_PASS = None,
      env_SMTP_FROM = None, env_CONTACT_TO = None, env_SMTP_TO = None\<rparr>"

abbreviation sample_world :: world where
  "sample_world \<equiv>
     \<lparr>db = sample_db,
      fs = \<lparr>landing_html = Some ''<h1>Hi</h1>'', fs_readable = True, fs_writable = True\<rparr>,
      env = sample_env, outbox = []\<rparr>"

abbreviation sample_world_full :: world where
  "sample_world_full \<equiv>
     \<lparr>db = \<lparr>submissions = [], visits = [], admins = [''admin'' \<mapsto> ''erfan9028@''],
             submissions_seq = 0, visits_seq = 0, accepts_writes = False\<rparr>,
      fs = \<lparr>landing_html = Some ''<h1>Hi</h1>'', fs_readable = True, fs_writable = True\<rparr>,
      env = sample_env, outbox = []\<rparr>"

abbreviation sample_visits :: "visit list" where
  "sample_visits \<equiv>
     [\<lparr>v_id = 1, v_ip = Some ''10.0.0.1'', v_ua = Some ''curl'', v_path = Some ''/'',
       v_ts = Some ''2023-11-13 09:00:00''\<rparr>,
      \<lparr>v_id = 2, v_ip = Some ''10.0.0.2'', v_ua = Some ''curl'', v_path = Some ''/pricing'',
       v_ts = Some ''2023-11-14 08:00:00''\<rparr>,
      \<lparr>v_id = 3, v_ip = Some ''10.0.0.1'', v_ua = Some ''curl'', v_path = Some ''/'',
       v_ts = Some ''2023-11-14 21:30:00''\<rparr>]"

abbreviation sample_body :: body where
  "sample_body \<equiv>
     \<lparr>username = ''admin'', password = ''erfan9028@'', content = ''<h1>New</h1>'',
      name = None, phone = None, email = None, message = None,
      services = JArr [JStr ''A'', JStr ''B'', JStr ''C'']\<rparr>"

abbreviation sample_malformed :: "http_method \<Rightarrow> string \<Rightarrow> incoming" where
  "sample_malformed m p \<equiv>
     \<lparr>in_method = m, in_path = p, in_x_forwarded_for = None, in_user_agent = None,
      in_remoteAddress = Some ''127.0.0.1'', in_payload = Malformed, in_session = Inr None\<rparr>"

abbreviation sample_request :: "http_method \<Rightarrow> string \<Rightarrow> session option \<Rightarrow> request" where
  "sample_request m p s \<equiv>
     \<lparr>req_method = m, req_path = p, x_forwarded_for = None, user_agent = None,
      remoteAddress = Some ''127.0.0.1'', req_body = sample_body, req_session = s\<rparr>"

section \<open>Decimal rendering, joining and the submission handler\<close>

lemma nat_toString_small: "n < 10 \<Longrightarrow> nat_toString n = [digit_char n]"
  by (simp add: nat_toString.simps)

lemma nat_toString_large:
  "10 \<le> n \<Longrightarrow> nat_toString n = nat_toString (n div 10) @ [digit_char (n mod 10)]"
  by (subst nat_toString.simps) simp

lemma digit_char_is_digit: "d < 10 \<Longrightarrow> digit_char d \<in> set ''0123456789''"
  unfolding digit_char_def by (rule nth_mem) simp

lemma nat_toString_nonempty: "nat_toString n \<noteq> []"
  by (subst nat_toString.simps) simp

lemma nat_toString_digits: "set (nat_toString n) \<subseteq> set ''0123456789''"
proof (induction n rule: nat_toString.induct)
  case (1 n)
  show ?case
  proof (cases "n < 10")
    case True
    then show ?thesis using digit_char_is_digit [of n] by (simp add: nat_toString_small)
  next
    case False
    then have "set (nat_toString (n div 10)) \<subseteq> set ''0123456789''" using 1 by simp
    moreover have "digit_char (n mod 10) \<in> set ''0123456789''"
      by (rule digit_char_is_digit) simp
    ultimately show ?thesis using False by (simp add: nat_toString_large)
  qed
qed

lemma length_nat_toString_le: "0 < k \<Longrightarrow> (length (nat_toString n) \<le> k) = (n < 10 ^ k)"
proof (induction n arbitrary: k rule: nat_toString.induct)
  case (1 n)
  show ?case
  proof (cases "n < 10")
    case True
    have "(10::nat) ^ 1 \<le> 10 ^ k" using 1(2) by (intro power_increasing) simp_all
    then have "n < 10 ^ k" using True by simp
    then show ?thesis using True 1(2) by (simp add: nat_toString_small)
  next
    case False
    show ?thesis
    proof (cases k)
      case 0
      then show ?thesis using 1(2) by simp
    next
      case (Suc j)
      show ?thesis
      proof (cases "j = 0")
        case True
        then show ?thesis using False Suc nat_toString_nonempty [of "n div 10"]
          by (simp add: nat_toString_large Suc_le_eq)
      next
        case jpos: False
        then have "(length (nat_toString (n div 10)) \<le> j) = (n div 10 < 10 ^ j)"
          using 1(1) [of j] False by simp
        moreover have "(n div 10 < 10 ^ j) = (n < 10 ^ Suc j)"
          by (simp add: less_mult_imp_div_less div_less_iff_less_mult mult.commute)
        ultimately show ?thesis using False Suc by (simp add: nat_toString_large)
      qed
    qed
  qed
qed

lemma nat_toString_rev_nth:
  "i < length (nat_toString n) \<Longrightarrow> rev (nat_toString n) ! i = digit_char (n div 10 ^ i mod 10)"
proof (induction n arbitrary: i rule: nat_toString.induct)
  case (1 n)
  show ?case
  proof (cases "n < 10")
    case True
    then show ?thesis using 1(2) by (simp add: nat_toString_small)
  next
    case False
    show ?thesis
    proof (cases i)
      case 0
      then show ?thesis using False by (simp add: nat_toString_large)
    next
      case (Suc j)
      then have "j < length (nat_toString (n div 10))"
        using 1(2) False by (simp add: nat_toString_large)
      then have "rev (nat_toString (n div 10)) ! j = digit_char (n div 10 div 10 ^ j mod 10)"
        using 1(1) False by simp
      then show ?thesis using False Suc by (simp add: nat_toString_large div_mult2_eq)
    qed
  qed
qed

lemma or_str_empty: "or_str a [] = (case a of None \<Rightarrow> [] | Some s \<Rightarrow> s)"
  by (simp add: or_str_def split: option.splits)

lemma or_str_Some: "p \<noteq> [] \<Longrightarrow> or_str (Some p) d = p"
  by (simp add: or_str_def)

lemma join_elems_strings: "join_elems (map JStr xs) = Inr xs"
  by (induction xs) simp_all

lemma servicesCsv_falsy: "\<not> truthy sv \<Longrightarrow> servicesCsv sv = Inr []"
  by (simp add: servicesCsv_def js_or_def js_join_def)

lemma servicesCsv_string: "servicesCsv (JStr s) = Inr s"
  by (simp add: servicesCsv_def js_or_def js_join_def)

lemma servicesCsv_strings: "servicesCsv (JArr (map JStr xs)) = Inr (join_strs '', '' xs)"
  by (simp add: servicesCsv_def js_or_def js_join_def join_elems_strings)

lemma servicesCsv_other:
  "truthy sv \<Longrightarrow> \<forall>s. sv \<noteq> JStr s \<Longrightarrow> \<forall>xs. sv \<noteq> JArr xs \<Longrightarrow> servicesCsv sv = Inl TypeError"
  by (cases sv) (simp_all add: servicesCsv_def js_or_def js_join_def)

lemma submit_handler_eq:
  "submit_handler v clk w req =
     (case servicesCsv (services (req_body req)) of
        Inl e \<Rightarrow> Inl (e, w)
      | Inr csv \<Rightarrow>
          (case insert_submission clk (db w) (or_str (name (req_body req)) [])
                  (or_str (phone (req_body req)) []) (or_str (email (req_body req)) []) csv
                  (or_str (message (req_body req)) []) (make_customerNumber clk)
                  (toLocaleString_fa_IR clk) of
             Inl e \<Rightarrow> Inl (e, w)
           | Inr d \<Rightarrow>
               Inr (JsonAck \<lparr>ok = True, customerNumber = make_customerNumber clk,
                             submissionDate = toLocaleString_fa_IR clk\<rparr>,
                    (if v = Notifying \<and> mailer_configured (env w) \<and> CONTACT_TO (env w) \<noteq> []
                     then w\<lparr>db := d, outbox := outbox w @
                            [compose_mail (env w) (req_body req) csv (make_customerNumber clk)
                               (toLocaleString_fa_IR clk)]\<rparr>
                     else w\<lparr>db := d\<rparr>),
                    req_session req)))"
  by (cases v) (simp_all add: post_api_submit_def post_api_submit_notify_def Let_def
      split: sum.splits)

lemma insert_submission_eq:
  "insert_submission clk d nm ph em sv msg cn sd =
     (if accepts_writes d then
        Inr (d\<lparr>submissions := submissions d @
                 [\<lparr>s_id = Suc (submissions_seq d), s_name = Some nm, s_phone = Some ph,
                   s_email = Some em, s_services = Some sv, s_message = Some msg,
                   s_customer_number = Some cn, s_submission_date = Some sd,
                   s_created_at = Some (datetime_now clk)\<rparr>],
               submissions_seq := Suc (submissions_seq d)\<rparr>)
      else Inl SqliteError)"
  by (simp add: insert_submission_def)

lemma submit_handler_success:
  assumes "servicesCsv (services (req_body req)) = Inr csv" and "accepts_writes (db w)"
  shows "\<exists>w'. submit_handler v clk w req =
            Inr (JsonAck \<lparr>ok = True, customerNumber = make_customerNumber clk,
                          submissionDate = toLocaleString_fa_IR clk\<rparr>, w', req_session req)
          \<and> fs w' = fs w
          \<and> db w' = (db w)\<lparr>submissions := submissions (db w) @
                 [\<lparr>s_id = Suc (submissions_seq (db w)),
                   s_name = Some (or_str (name (req_body req)) []),
                   s_phone = Some (or_str (phone (req_body req)) []),
                   s_email = Some (or_str (email (req_body req)) []),
                   s_services = Some csv,
                   s_message = Some (or_str (message (req_body req)) []),
                   s_customer_number = Some (make_customerNumber clk),
                   s_submission_date = Some (toLocaleString_fa_IR clk),
                   s_created_at = Some (datetime_now clk)\<rparr>],
               submissions_seq := Suc (submissions_seq (db w))\<rparr>"
  using assms by (simp add: submit_handler_eq insert_submission_eq)

lemma submit_handler_Inr:
  assumes "submit_handler v clk w req = Inr (resp, w', s')"
  shows "\<exists>csv. servicesCsv (services (req_body req)) = Inr csv \<and> accepts_writes (db w)"
  using assms by (auto simp add: submit_handler_eq insert_submission_eq split: sum.splits if_splits)

lemma slice_last_length: "length (slice_last k s) = min k (length s)"
  by (simp add: slice_last_def)

lemma slice_last_set: "set (slice_last k s) \<subseteq> set s"
  by (simp add: slice_last_def set_drop_subset)

lemma slice_last_rev_nth: "i < length (slice_last k s) \<Longrightarrow> rev (slice_last k s) ! i = rev s ! i"
  by (simp add: slice_last_def rev_drop)

lemma slice_last_short: "length s \<le> k \<Longrightarrow> slice_last k s = s"
  by (simp add: slice_last_def)

lemma customer_digits:
  fixes n :: nat
  defines "ds \<equiv> slice_last 6 (nat_toString n)"
  shows "1 \<le> length ds" and "length ds \<le> 6" and "set ds \<subseteq> set ''0123456789''"
    and "\<forall>i < length ds. rev ds ! i = digit_char (n div 10 ^ i mod 10)"
    and "n < 10 ^ 6 \<longrightarrow> ds = nat_toString n"
    and "10 ^ 6 \<le> n \<longrightarrow> length ds = 6"
proof -
  have ne: "nat_toString n \<noteq> []" by (rule nat_toString_nonempty)
  then show "1 \<le> length ds" unfolding ds_def by (simp add: slice_last_length Suc_le_eq)
  show "length ds \<le> 6" unfolding ds_def by (simp add: slice_last_length)
  show "set ds \<subseteq> set ''0123456789''"
    unfolding ds_def using slice_last_set [of 6 "nat_toString n"] nat_toString_digits [of n]
    by (rule subset_trans)
  show "\<forall>i < length ds. rev ds ! i = digit_char (n div 10 ^ i mod 10)"
  proof (intro allI impI)
    fix i assume i: "i < length ds"
    then have "i < length (nat_toString n)" unfolding ds_def by (simp add: slice_last_length)
    then show "rev ds ! i = digit_char (n div 10 ^ i mod 10)"
      using i unfolding ds_def by (simp add: slice_last_rev_nth nat_toString_rev_nth)
  qed
  have len: "(length (nat_toString n) \<le> 6) = (n < 10 ^ 6)"
    by (rule length_nat_toString_le) simp
  show "n < 10 ^ 6 \<longrightarrow> ds = nat_toString n"
    unfolding ds_def using len by (simp add: slice_last_short)
  show "10 ^ 6 \<le> n \<longrightarrow> length ds = 6"
    unfolding ds_def using len by (auto simp add: slice_last_length)
qed

lemma find_route_api_submit:
  "req_method req = POST \<Longrightarrow> req_path req = ''/api/submit'' \<Longrightarrow> find_route req = Some ApiSubmit"
  by (simp add: find_route_def routes_def method_matches_def route_matches_def
      toLowerCase_char_def)

lemma track_visits_skip:
  "startsWith (req_path req) ''/admin'' \<or> startsWith (req_path req) ''/api''
     \<Longrightarrow> track_visits clk w req next = next w"
  by (simp add: track_visits_def)

lemma insert_visit_eq:
  "insert_visit clk d ip ua p =
     (if accepts_writes d then
        Inr (d\<lparr>visits := visits d @
                 [\<lparr>v_id = Suc (visits_seq d), v_ip = Some ip, v_ua = Some ua,
                   v_path = Some p, v_ts = Some (datetime_now clk)\<rparr>],
               visits_seq := Suc (visits_seq d)\<rparr>)
      else Inl SqliteError)"
  by (simp add: insert_visit_def)

lemma track_visits_insert:
  "\<not> startsWith (req_path req) ''/admin'' \<Longrightarrow> \<not> startsWith (req_path req) ''/api'' \<Longrightarrow>
   track_visits clk w req next =
     (case insert_visit clk (db w) (visit_ip req) (visit_ua req) (visit_pathStr req) of
        Inl e \<Rightarrow> Inl (e, w)
      | Inr d \<Rightarrow> next (w\<lparr>db := d\<rparr>))"
  by (simp add: track_visits_def)

lemma world_after_requireAuth:
  "world_after (requireAuth w req next) =
     (if Option.bind (req_session req) user = Some ADMIN_USERNAME then world_after next else w)"
  by (simp add: requireAuth_def world_after_def)

lemma handler_visits:
  "visits (db (world_after (handler v r clk w req))) = visits (db w)"
proof (cases r)
  case ApiSubmit
  then show ?thesis
    by (simp add: submit_handler_eq insert_submission_eq world_after_def split: sum.splits)
next
  case AdminLoginPost
  then show ?thesis
    by (simp add: post_admin_login_def world_after_def Let_def split: option.splits)
next
  case AdminEditorPost
  then show ?thesis
    by (simp add: post_admin_editor_def writeFileSync_def world_after_def)
qed (simp_all add: get_admin_login_def post_admin_logout_def get_admin_def
      get_admin_submissions_def get_admin_visits_def get_admin_editor_def get_api_stats_def
      get_root_def world_after_def Let_def split: option.splits)

lemma run_route_gate:
  "run_route v r clk w req =
     (if r \<in> {AdminLogout, Admin, AdminSubmissions, AdminVisits, AdminEditorGet,
               AdminEditorPost, ApiStats}
      then requireAuth w req (handler v r clk w req)
      else handler v r clk w req)"
  by (cases r) simp_all

lemma run_route_visits:
  "visits (db (world_after (run_route v r clk w req))) = visits (db w)"
  by (simp add: run_route_gate world_after_requireAuth handler_visits del: insert_iff)

lemma router_visits:
  "visits (db (world_after (router v clk w req))) = visits (db w)"
  by (simp add: router_def run_route_visits split: option.splits) (simp add: world_after_def)

lemma after_static_visits:
  "visits (db (world_after (case static w req of
                Some resp \<Rightarrow> Inr (resp, w, req_session req)
              | None \<Rightarrow> router v clk w req))) = visits (db w)"
proof (cases "static w req")
  case None
  then show ?thesis by (simp add: router_visits)
next
  case (Some resp)
  then show ?thesis by (simp add: world_after_def)
qed

lemma dispatch_after_insert_failure:
  "\<not> startsWith (req_path req) ''/admin'' \<Longrightarrow> \<not> startsWith (req_path req) ''/api'' \<Longrightarrow>
   insert_visit clk (db w) (visit_ip req) (visit_ua req) (visit_pathStr req) = Inl e \<Longrightarrow>
   dispatch v static clk w req = Inl (e, w)"
  by (simp add: dispatch_def track_visits_insert)

lemma post_admin_login_eq:
  "post_admin_login clk w req =
     (if admins (db w) (username (req_body req)) = Some (password (req_body req)) then
        (case req_session req of
           None \<Rightarrow> Inl (TypeError, w)
         | Some s \<Rightarrow> Inr (Redirect ''/admin'', w, Some (s\<lparr>user := Some ADMIN_USERNAME\<rparr>)))
      else Inr (Render 401 (LoginView (Some LOGIN_ERROR)), w, req_session req))"
  by (auto simp add: post_admin_login_def Let_def split: option.splits)

lemma find_route_login_post:
  "req_method req = POST \<Longrightarrow> req_path req = ''/admin/login'' \<Longrightarrow> find_route req = Some AdminLoginPost"
  by (simp add: find_route_def routes_def method_matches_def route_matches_def
      toLowerCase_char_def)

lemma dispatch_admin_api:
  "startsWith (req_path req) ''/admin'' \<or> startsWith (req_path req) ''/api'' \<Longrightarrow>
   static w req = None \<Longrightarrow> dispatch v static clk w req = router v clk w req"
  by (simp add: dispatch_def track_visits_skip)

lemma find_route_gated:
  "req_method req = POST \<Longrightarrow> req_path req = ''/admin/logout'' \<Longrightarrow> find_route req = Some AdminLogout"
  "req_method req = GET \<Longrightarrow> req_path req = ''/admin'' \<Longrightarrow> find_route req = Some Admin"
  "req_method req = GET \<Longrightarrow> req_path req = ''/admin/submissions'' \<Longrightarrow> find_route req = Some AdminSubmissions"
  "req_method req = GET \<Longrightarrow> req_path req = ''/admin/visits'' \<Longrightarrow> find_route req = Some AdminVisits"
  "req_method req = GET \<Longrightarrow> req_path req = ''/admin/editor'' \<Longrightarrow> find_route req = Some AdminEditorGet"
  "req_method req = POST \<Longrightarrow> req_path req = ''/admin/editor'' \<Longrightarrow> find_route req = Some AdminEditorPost"
  "req_method req = GET \<Longrightarrow> req_path req = ''/api/stats'' \<Longrightarrow> find_route req = Some ApiStats"
  by (simp_all add: find_route_def routes_def method_matches_def route_matches_def
      toLowerCase_char_def)

lemma dispatch_gated_exact:
  assumes "(m, p, r) \<in> set [(POST, ''/admin/logout'', AdminLogout), (GET, ''/admin'', Admin),
              (GET, ''/admin/submissions'', AdminSubmissions), (GET, ''/admin/visits'', AdminVisits),
              (GET, ''/admin/editor'', AdminEditorGet), (POST, ''/admin/editor'', AdminEditorPost),
              (GET, ''/api/stats'', ApiStats)]"
    and "req_method req = m" and "req_path req = p" and "static w req = None"
  shows "dispatch v static clk w req = run_route v r clk w req"
proof -
  from assms(1-3) have f: "find_route req = Some r"
    by (auto simp add: find_route_gated)
  from assms(1,3) have "startsWith (req_path req) ''/admin'' \<or> startsWith (req_path req) ''/api''"
    by (auto simp add: startsWith_def)
  then have "dispatch v static clk w req = router v clk w req"
    using assms(4) by (rule dispatch_admin_api)
  then show ?thesis using f by (simp add: router_def)
qed

lemma readFileSync_eq:
  "readFileSync f =
     (case landing_html f of
        None \<Rightarrow> Inl FsError
      | Some c \<Rightarrow> if fs_readable f then Inr c else Inl FsError)"
  by (simp add: readFileSync_def)

lemma get_admin_editor_eq:
  "get_admin_editor clk w req =
     Inr (Render 200 (EditorView (case landing_html (fs w) of
                                    None \<Rightarrow> []
                                  | Some c \<Rightarrow> if fs_readable (fs w) then c else [])),
          w, req_session req)"
  by (simp add: get_admin_editor_def readFileSync_eq split: option.splits)

lemma post_admin_editor_eq:
  "post_admin_editor clk w req =
     (if fs_writable (fs w)
      then Inr (Redirect ''/admin/editor'',
                w\<lparr>fs := (fs w)\<lparr>landing_html := Some (content (req_body req))\<rparr>\<rparr>, req_session req)
      else Inl (FsError, w))"
  by (simp add: post_admin_editor_def writeFileSync_def)

lemma handler_session:
  "handler v r clk w req = Inr (resp, w', s') \<Longrightarrow>
   s' = req_session req \<or> s' = None
   \<or> (\<exists>s. req_session req = Some s \<and> s' = Some (s\<lparr>user := Some ADMIN_USERNAME\<rparr>))"
proof (cases r)
  case ApiSubmit
  assume "handler v r clk w req = Inr (resp, w', s')"
  then show ?thesis using ApiSubmit
    by (auto simp add: submit_handler_eq split: sum.splits if_splits)
next
  case AdminLoginPost
  assume "handler v r clk w req = Inr (resp, w', s')"
  then show ?thesis using AdminLoginPost
    by (auto simp add: post_admin_login_eq split: option.splits if_splits)
next
  case AdminEditorPost
  assume "handler v r clk w req = Inr (resp, w', s')"
  then show ?thesis using AdminEditorPost
    by (auto simp add: post_admin_editor_eq split: if_splits)
qed (auto simp add: get_admin_login_def post_admin_logout_def get_admin_def
      get_admin_submissions_def get_admin_visits_def get_admin_editor_eq get_api_stats_def
      get_root_def Let_def split: option.splits)

lemma run_route_session:
  "run_route v r clk w req = Inr (resp, w', s') \<Longrightarrow>
   s' = req_session req \<or> s' = None
   \<or> (\<exists>s. req_session req = Some s \<and> s' = Some (s\<lparr>user := Some ADMIN_USERNAME\<rparr>))"
  using handler_session [of v r clk w req resp w' s']
  by (auto simp add: run_route_gate requireAuth_def simp del: insert_iff split: if_splits)

lemma router_session:
  "router v clk w req = Inr (resp, w', s') \<Longrightarrow>
   s' = req_session req \<or> s' = None
   \<or> (\<exists>s. req_session req = Some s \<and> s' = Some (s\<lparr>user := Some ADMIN_USERNAME\<rparr>))"
  using run_route_session [of v _ clk w req resp w' s']
  by (auto simp add: router_def split: option.splits)

lemma dispatch_session:
  assumes "dispatch v static clk w req = Inr (resp, w', s')"
  shows "s' = req_session req \<or> s' = None
   \<or> (\<exists>s. req_session req = Some s \<and> s' = Some (s\<lparr>user := Some ADMIN_USERNAME\<rparr>))"
proof -
  obtain w1 where "(case static w1 req of
                Some resp \<Rightarrow> Inr (resp, w1, req_session req)
              | None \<Rightarrow> router v clk w1 req) = Inr (resp, w', s')"
    using assms by (auto simp add: dispatch_def track_visits_def split: if_splits sum.splits)
  then show ?thesis
    using router_session [of v clk w1 req resp w' s'] by (auto split: option.splits)
qed

lemma dispatch_marker:
  assumes "dispatch v static clk w req = Inr (resp, w', s')"
  shows "Option.bind s' user \<in> {Option.bind (req_session req) user, None, Some ADMIN_USERNAME}"
  using dispatch_session [OF assms] by auto

lemma seed_admin_other: "u \<noteq> ADMIN_USERNAME \<Longrightarrow> admins (seed_admin d) u = admins d u"
  by (simp add: seed_admin_def insert_or_replace_admin_def)

lemma seed_admin_self: "admins (seed_admin d) ADMIN_USERNAME = Some ADMIN_PASSWORD"
  by (simp add: seed_admin_def insert_or_replace_admin_def)

lemma group_count_keys: "map fst (group_count key rows) = remdups (map key rows)"
  by (simp add: group_count_def comp_def)

lemma group_count_entry:
  assumes "(k, n) \<in> set (group_count key rows)"
  shows "k \<in> key ` set rows" and "n = length (filter (\<lambda>r. key r = k) rows)"
  using assms by (auto simp add: group_count_def)

lemma map_sort_key: "map f (sort_key f xs) = sort (map f xs)"
proof -
  have "mset (map f (sort_key f xs)) = mset (map f xs)" by simp
  moreover have "sorted (map f (sort_key f xs))" by (rule sorted_sort_key)
  ultimately show ?thesis by (rule properties_for_sort [symmetric])
qed

lemma order_by_desc_group_keys:
  "map fst (order_by_desc fst (group_count key rows))
     = rev (sorted_list_of_set (key ` set rows))"
proof -
  have "map fst (order_by_desc fst (group_count key rows))
          = rev (sort (map fst (group_count key rows)))"
    by (simp add: order_by_desc_def rev_map [symmetric] map_sort_key)
  also have "\<dots> = rev (sort (remdups (map key rows)))" by (simp add: group_count_keys)
  also have "\<dots> = rev (sorted_list_of_set (set (map key rows)))"
    by (simp only: sorted_list_of_set_sort_remdups)
  finally show ?thesis by simp
qed

lemma order_by_desc_set: "set (order_by_desc f xs) = set xs"
  by (simp add: order_by_desc_def)

lemma order_by_desc_sorted: "sorted_wrt (\<lambda>a b. b \<le> a) (map f (order_by_desc f xs))"
  unfolding order_by_desc_def rev_map [symmetric] sorted_wrt_rev by (rule sorted_sort_key)

lemma order_by_desc_distinct_map:
  "distinct (map g (order_by_desc f xs)) = distinct (map g xs)"
proof -
  have "mset (map g (order_by_desc f xs)) = mset (map g xs)"
    by (simp add: order_by_desc_def)
  then show ?thesis by (rule mset_eq_imp_distinct_iff)
qed

lemma count_today_eq:
  "count_today clk vs =
     length (filter (\<lambda>v. \<exists>t. v_ts v = Some t \<and> take 10 t = take 10 (datetime_now clk)) vs)"
  unfolding count_today_def
  by (rule arg_cong [where f = length], rule filter_cong) (auto simp add: sql_eq_def sql_date_def)


lemma get_api_stats_eq:
  "get_api_stats clk w req =
     Inr (JsonStats
            \<lparr>total = length (visits (db w)),
             today = count_today clk (visits (db w)),
             byDay = take 30 (order_by_desc fst
                       (group_count (\<lambda>x. sql_date (v_ts x)) (visits (db w)))),
             byPath = order_by_desc snd (group_count v_path (visits (db w)))\<rparr>,
          w, req_session req)"
  by (simp add: get_api_stats_def Let_def)

lemma app_arriving: "app v static clk w (arriving req) = dispatch v static clk w req"
  by (cases req) (simp add: app_def arriving_def body_parsers_def session_middleware_def)

lemma app_ended_early:
  "body_parsers inc = Inl e \<or> session_middleware inc = Inl e \<Longrightarrow>
   world_after (app v static clk w inc) = w"
  by (auto simp add: app_def world_after_def split: sum.splits)

lemma app_refused: "body_parsers inc = Inl e \<Longrightarrow> app v static clk w inc = Inl (e, w)"
  by (simp add: app_def)

lemma dispatch_skip_visits:
  "startsWith (req_path req) ''/admin'' \<or> startsWith (req_path req) ''/api'' \<Longrightarrow>
   visits (db (world_after (dispatch v static clk w req))) = visits (db w)"
  by (simp add: dispatch_def track_visits_skip after_static_visits)

lemma app_skip_visits:
  "startsWith (in_path inc) ''/admin'' \<or> startsWith (in_path inc) ''/api'' \<Longrightarrow>
   visits (db (world_after (app v static clk w inc))) = visits (db w)"
proof (cases "body_parsers inc")
  case (Inl e)
  then show ?thesis using app_ended_early [of inc e v static clk w] by simp
next
  case b: (Inr b)
  assume p: "startsWith (in_path inc) ''/admin'' \<or> startsWith (in_path inc) ''/api''"
  show ?thesis
  proof (cases "session_middleware inc")
    case (Inl e)
    then show ?thesis using app_ended_early [of inc e v static clk w] by simp
  next
    case (Inr s)
    then show ?thesis using b p by (simp add: app_def dispatch_skip_visits)
  qed
qed

lemma app_session:
  assumes "app v static clk w inc = Inr (resp, w', s')"
  shows "\<exists>s0. in_session inc = Inr s0
     \<and> (s' = s0 \<or> s' = None \<or> (\<exists>s. s0 = Some s \<and> s' = Some (s\<lparr>user := Some ADMIN_USERNAME\<rparr>)))"
proof -
  from assms obtain b s0 where "session_middleware inc = Inr s0"
    and d: "dispatch v static clk w
                 \<lparr>req_method = in_method inc, req_path = in_path inc,
                  x_forwarded_for = in_x_forwarded_for inc, user_agent = in_user_agent inc,
                  remoteAddress = in_remoteAddress inc, req_body = b, req_session = s0\<rparr>
              = Inr (resp, w', s')"
    by (auto simp add: app_def split: sum.splits)
  then have "in_session inc = Inr s0" by (simp add: session_middleware_def)
  with dispatch_session [OF d] show ?thesis by simp
qed

lemma serve_marker:
  "Option.bind stored user \<in> {None, Some ADMIN_USERNAME} \<Longrightarrow>
   Option.bind (snd (serve v static w stored reqs)) user \<in> {None, Some ADMIN_USERNAME}"
proof (induction reqs arbitrary: w stored)
  case Nil
  then show ?case by simp
next
  case (Cons cr reqs)
  obtain clk inc where cr: "cr = (clk, inc)" by (cases cr)
  let ?inc = "inc\<lparr>in_session := Inr (Some (load_session stored))\<rparr>"
  have ld: "Option.bind (Some (load_session stored)) user = Option.bind stored user"
    by (cases stored) (simp_all add: load_session_def)
  show ?case
  proof (cases "app v static clk w ?inc")
    case (Inl ew)
    then show ?thesis using Cons cr by (cases ew) simp
  next
    case (Inr t)
    obtain resp w' s' where t: "t = (resp, w', s')" by (cases t)
    from app_session [OF Inr [unfolded t]]
    have "s' = Some (load_session stored) \<or> s' = None
        \<or> s' = Some ((load_session stored)\<lparr>user := Some ADMIN_USERNAME\<rparr>)"
      by auto
    then have "Option.bind s' user \<in> {None, Some ADMIN_USERNAME}"
      using ld Cons.prems by auto
    then show ?thesis using Cons.IH [of s' w'] Inr t cr by simp
  qed
qed

lemma join_strs_concat: "join_strs sep xs = drop (length sep) (concat (map ((@) sep) xs))"
  by (induction sep xs rule: join_strs.induct) simp_all

lemma nat_toString_length_bounds:
  "n < 10 ^ length (nat_toString n)"
  "length (nat_toString n) = 1 \<or> 10 ^ (length (nat_toString n) - 1) \<le> n"
proof -
  have pos: "0 < length (nat_toString n)" using nat_toString_nonempty [of n] by simp
  from length_nat_toString_le [OF pos, of n] show "n < 10 ^ length (nat_toString n)" by simp
  show "length (nat_toString n) = 1 \<or> 10 ^ (length (nat_toString n) - 1) \<le> n"
  proof (cases "length (nat_toString n) = 1")
    case True
    then show ?thesis by simp
  next
    case False
    with pos have j: "0 < length (nat_toString n) - 1" by arith
    have "\<not> length (nat_toString n) \<le> length (nat_toString n) - 1" using pos by arith
    with length_nat_toString_le [OF j, of n] have "\<not> n < 10 ^ (length (nat_toString n) - 1)"
      by blast
    then show ?thesis by simp
  qed
qed

lemma customer_digits_unpadded:
  fixes n :: nat
  defines "ds \<equiv> slice_last 6 (nat_toString n)"
  assumes "n < 10 ^ 6"
  shows "n < 10 ^ length ds" and "length ds = 1 \<or> 10 ^ (length ds - 1) \<le> n"
proof -
  have "(length (nat_toString n) \<le> 6) = (n < 10 ^ 6)"
    by (rule length_nat_toString_le) simp
  with assms(2) have "ds = nat_toString n" unfolding ds_def by (simp add: slice_last_short)
  then show "n < 10 ^ length ds" and "length ds = 1 \<or> 10 ^ (length ds - 1) \<le> n"
    using nat_toString_length_bounds [of n] by simp_all
qed

lemma dispatch_api_submit:
  assumes "req_method req = POST" and "req_path req = ''/api/submit''" and "static w req = None"
  shows "dispatch v static clk w req = submit_handler v clk w req"
proof -
  have "startsWith (req_path req) ''/admin'' \<or> startsWith (req_path req) ''/api''"
    using assms(2) by (simp add: startsWith_def)
  then have "dispatch v static clk w req = router v clk w req"
    using assms(3) by (rule dispatch_admin_api)
  then show ?thesis using find_route_api_submit [OF assms(1,2)] by (simp add: router_def)
qed

lemma Date_now_instant: "\<exists>k. arrival clk \<le> k \<and> Date_now clk = wall clk k"
  by (rule exI [of _ "arrival clk + elapsed clk"]) (simp add: Date_now_def)

lemma Date_now_after_arrival:
  "(\<forall>i j. i \<le> j \<longrightarrow> wall clk i \<le> wall clk j) \<Longrightarrow> wall clk (arrival clk) \<le> Date_now clk"
  by (simp add: Date_now_def)

lemma servicesCsv_strings_concat:
  "servicesCsv (JArr (map JStr xs)) = Inr (drop 2 (concat (map (\<lambda>x. '', '' @ x) xs)))"
proof -
  have "(\<lambda>x. '', '' @ x) = (@) '', ''" by (rule ext) simp
  then show ?thesis
    by (simp only: servicesCsv_strings join_strs_concat) (simp add: numeral_2_eq_2)
qed

lemma app_admin_api:
  "startsWith (req_path req) ''/admin'' \<or> startsWith (req_path req) ''/api'' \<Longrightarrow>
   static w req = None \<Longrightarrow> app v static clk w (arriving req) = router v clk w req"
  by (simp add: app_arriving dispatch_admin_api)

lemma app_gated_exact:
  assumes "(m, p, r) \<in> set [(POST, ''/admin/logout'', AdminLogout), (GET, ''/admin'', Admin),
              (GET, ''/admin/submissions'', AdminSubmissions), (GET, ''/admin/visits'', AdminVisits),
              (GET, ''/admin/editor'', AdminEditorGet), (POST, ''/admin/editor'', AdminEditorPost),
              (GET, ''/api/stats'', ApiStats)]"
    and "req_method req = m" and "req_path req = p" and "static w req = None"
  shows "app v static clk w (arriving req) = run_route v r clk w req"
  using dispatch_gated_exact [of m p r req static w v clk] assms by (simp add: app_arriving)

lemma app_after_insert_failure:
  "\<not> startsWith (req_path req) ''/admin'' \<Longrightarrow> \<not> startsWith (req_path req) ''/api'' \<Longrightarrow>
   insert_visit clk (db w) (visit_ip req) (visit_ua req) (visit_pathStr req) = Inl e \<Longrightarrow>
   app v static clk w (arriving req) = Inl (e, w)"
  by (simp add: app_arriving dispatch_after_insert_failure)

lemma app_marker:
  assumes "app v static clk w (arriving req) = Inr (resp, w', s')"
  shows "Option.bind s' user \<in> {Option.bind (req_session req) user, None, Some ADMIN_USERNAME}"
  using dispatch_marker [OF assms [unfolded app_arriving]] .

lemma startsWith_append: "startsWith s p = (\<exists>rest. s = p @ rest)"
proof
  assume "startsWith s p"
  then have "s = p @ drop (length p) s"
    unfolding startsWith_def by (metis append_take_drop_id)
  then show "\<exists>rest. s = p @ rest" ..
next
  assume "\<exists>rest. s = p @ rest"
  then show "startsWith s p" by (auto simp add: startsWith_def)
qed

lemma incoming_passed:
  assumes "body_parsers inc = Inr b" and "session_middleware inc = Inr s"
  shows "\<exists>req. inc = arriving req \<and> req_path req = in_path inc \<and> req_body req = b
           \<and> req_session req = s"
proof -
  let ?req = "\<lparr>req_method = in_method inc, req_path = in_path inc,
                  x_forwarded_for = in_x_forwarded_for inc, user_agent = in_user_agent inc,
                  remoteAddress = in_remoteAddress inc, req_body = b, req_session = s\<rparr>"
  have "in_payload inc = Parsed b" using assms(1)
    by (cases "in_payload inc") (simp_all add: body_parsers_def)
  moreover have "in_session inc = Inr s" using assms(2) by (simp add: session_middleware_def)
  ultimately have "inc = arriving ?req" by (cases inc) (simp add: arriving_def)
  then show ?thesis by (intro exI [of _ ?req]) simp
qed

lemma dispatch_insert_refused:
  "\<not> startsWith (req_path req) ''/admin'' \<Longrightarrow> \<not> startsWith (req_path req) ''/api'' \<Longrightarrow>
   \<not> accepts_writes (db w) \<Longrightarrow> dispatch v static clk w req = Inl (SqliteError, w)"
  by (simp add: dispatch_after_insert_failure insert_visit_eq)

section \<open>The claims\<close>

text \<open>
  C2: whenever \<open>POST /api/submit\<close> answers, the customer reference it returns, and
  stores in the new row, is \<open>JN\<close> followed by the last six characters of the decimal
  rendering of the timestamp \<open>Date.now()\<close> gives: between one and six characters, the
  one at position \<open>i\<close> from the right being the character of the \<open>i\<close>-th decimal digit
  of the timestamp. Below \<open>10^6\<close> these are all the digits of the timestamp and no more:
  their number \<open>k\<close> has the timestamp below \<open>10^k\<close>, and \<open>k\<close> is one or the
  timestamp is at least \<open>10^(k-1)\<close>, so nothing is padded; from \<open>10^6\<close> on there are
  six. The timestamp is the wall clock at an instant no earlier than the arrival of the
  request, hence no smaller than the wall clock at the arrival when the wall clock is not
  set back. The handler answers exactly when the services value can be joined and the
  store accepts the insert; the application routes \<open>POST /api/submit\<close> to it; both
  variants of the handler are covered.
\<close>

theorem C2_customer_reference:
  "((\<exists>resp w' s'. submit_handler v clk w req = Inr (resp, w', s'))
      = ((\<exists>csv. servicesCsv (services (req_body req)) = Inr csv) \<and> accepts_writes (db w)))
   \<and> (req_method req = POST \<and> req_path req = ''/api/submit'' \<and> static w req = None
        \<longrightarrow> app v static clk w (arriving req) = submit_handler v clk w req)
   \<and> (\<exists>k. arrival clk \<le> k \<and> Date_now clk = wall clk k)
   \<and> ((\<forall>i j. i \<le> j \<longrightarrow> wall clk i \<le> wall clk j) \<longrightarrow> wall clk (arrival clk) \<le> Date_now clk)
   \<and> (\<forall>resp w' s'. submit_handler v clk w req = Inr (resp, w', s') \<longrightarrow>
        (\<exists>ack row ds.
           resp = JsonAck ack \<and> customerNumber ack = ''JN'' @ ds
         \<and> submissions (db w') = submissions (db w) @ [row]
         \<and> s_customer_number row = Some (''JN'' @ ds)
         \<and> ds = slice_last 6 (nat_toString (Date_now clk))
         \<and> 1 \<le> length ds \<and> length ds \<le> 6 \<and> set ds \<subseteq> set ''0123456789''
         \<and> (\<forall>i < length ds. rev ds ! i = ''0123456789'' ! (Date_now clk div 10 ^ i mod 10))
         \<and> (Date_now clk < 10 ^ 6
              \<longrightarrow> Date_now clk < 10 ^ length ds
                \<and> (length ds = 1 \<or> 10 ^ (length ds - 1) \<le> Date_now clk))
         \<and> (10 ^ 6 \<le> Date_now clk \<longrightarrow> length ds = 6)))"
proof (intro conjI allI impI)
  show "(\<exists>resp w' s'. submit_handler v clk w req = Inr (resp, w', s'))
      = ((\<exists>csv. servicesCsv (services (req_body req)) = Inr csv) \<and> accepts_writes (db w))"
  proof
    assume "\<exists>resp w' s'. submit_handler v clk w req = Inr (resp, w', s')"
    then show "(\<exists>csv. servicesCsv (services (req_body req)) = Inr csv) \<and> accepts_writes (db w)"
      using submit_handler_Inr by blast
  next
    assume "(\<exists>csv. servicesCsv (services (req_body req)) = Inr csv) \<and> accepts_writes (db w)"
    then show "\<exists>resp w' s'. submit_handler v clk w req = Inr (resp, w', s')"
      using submit_handler_success [of req _ w v clk] by blast
  qed
next
  assume "req_method req = POST \<and> req_path req = ''/api/submit'' \<and> static w req = None"
  then show "app v static clk w (arriving req) = submit_handler v clk w req"
    by (simp add: app_arriving dispatch_api_submit)
next
  show "\<exists>k. arrival clk \<le> k \<and> Date_now clk = wall clk k" by (rule Date_now_instant)
next
  assume "\<forall>i j. i \<le> j \<longrightarrow> wall clk i \<le> wall clk j"
  then show "wall clk (arrival clk) \<le> Date_now clk" by (rule Date_now_after_arrival)
next
  fix resp w' s'
  assume r: "submit_handler v clk w req = Inr (resp, w', s')"
  from submit_handler_Inr [OF r] obtain csv
    where csv: "servicesCsv (services (req_body req)) = Inr csv" and ok: "accepts_writes (db w)"
    by blast
  from submit_handler_success [OF csv ok, of v clk] r
  have resp: "resp = JsonAck \<lparr>ok = True, customerNumber = make_customerNumber clk,
                          submissionDate = toLocaleString_fa_IR clk\<rparr>"
    and d: "db w' = (db w)\<lparr>submissions := submissions (db w) @
                 [\<lparr>s_id = Suc (submissions_seq (db w)),
                   s_name = Some (or_str (name (req_body req)) []),
                   s_phone = Some (or_str (phone (req_body req)) []),
                   s_email = Some (or_str (email (req_body req)) []),
                   s_services = Some csv,
                   s_message = Some (or_str (message (req_body req)) []),
                   s_customer_number = Some (make_customerNumber clk),
                   s_submission_date = Some (toLocaleString_fa_IR clk),
                   s_created_at = Some (datetime_now clk)\<rparr>],
               submissions_seq := Suc (submissions_seq (db w))\<rparr>"
    by auto
  define ds where "ds = slice_last 6 (nat_toString (Date_now clk))"
  note cd = customer_digits [of "Date_now clk", folded ds_def]
  note cu = customer_digits_unpadded [of "Date_now clk", folded ds_def]
  have un: "Date_now clk < 10 ^ 6
              \<longrightarrow> Date_now clk < 10 ^ length ds
                \<and> (length ds = 1 \<or> 10 ^ (length ds - 1) \<le> Date_now clk)"
    using cu by blast
  show "\<exists>ack row ds.
           resp = JsonAck ack \<and> customerNumber ack = ''JN'' @ ds
         \<and> submissions (db w') = submissions (db w) @ [row]
         \<and> s_customer_number row = Some (''JN'' @ ds)
         \<and> ds = slice_last 6 (nat_toString (Date_now clk))
         \<and> 1 \<le> length ds \<and> length ds \<le> 6 \<and> set ds \<subseteq> set ''0123456789''
         \<and> (\<forall>i < length ds. rev ds ! i = ''0123456789'' ! (Date_now clk div 10 ^ i mod 10))
         \<and> (Date_now clk < 10 ^ 6
              \<longrightarrow> Date_now clk < 10 ^ length ds
                \<and> (length ds = 1 \<or> 10 ^ (length ds - 1) \<le> Date_now clk))
         \<and> (10 ^ 6 \<le> Date_now clk \<longrightarrow> length ds = 6)"
    apply (rule exI [of _ "\<lparr>ok = True, customerNumber = make_customerNumber clk,
                          submissionDate = toLocaleString_fa_IR clk\<rparr>"])
    apply (rule exI [of _ "\<lparr>s_id = Suc (submissions_seq (db w)),
                   s_name = Some (or_str (name (req_body req)) []),
                   s_phone = Some (or_str (phone (req_body req)) []),
                   s_email = Some (or_str (email (req_body req)) []),
                   s_services = Some csv,
                   s_message = Some (or_str (message (req_body req)) []),
                   s_customer_number = Some (make_customerNumber clk),
                   s_submission_date = Some (toLocaleString_fa_IR clk),
                   s_created_at = Some (datetime_now clk)\<rparr>"])
    apply (rule exI [of _ ds])
    using cd(1-4,6) un resp d by (simp add: make_customerNumber_def ds_def digit_char_def)
qed

theorem C2_customer_reference_witness:
  "(\<exists>ack w' s'. app Plain no_static sample_clock sample_world
        (arriving (sample_request POST ''/api/submit'' None)) = Inr (JsonAck ack, w', s')
      \<and> customerNumber ack = ''JN000123'')
   \<and> (\<exists>ack w' s'. app Notifying no_static sample_clock_1970 sample_world
        (arriving (sample_request POST ''/api/submit'' None)) = Inr (JsonAck ack, w', s')
      \<and> customerNumber ack = ''JN4217'')
   \<and> wall sample_clock (arrival sample_clock) \<le> Date_now sample_clock
   \<and> Date_now sample_clock = 1700000000123 \<and> Date_now sample_clock_1970 = 4217"
proof -
  let ?req = "sample_request POST ''/api/submit'' None"
  have a: "(\<exists>csv. servicesCsv (services (req_body ?req)) = Inr csv)
      \<and> accepts_writes (db sample_world)"
    by (simp add: servicesCsv_def js_or_def js_join_def)
  have p: "req_method ?req = POST \<and> req_path ?req = ''/api/submit''
      \<and> no_static sample_world ?req = None"
    by (simp add: no_static_def)
  have m: "\<forall>i j. i \<le> j \<longrightarrow> wall sample_clock i \<le> wall sample_clock j"
    by (simp add: sample_wall_def)
  have n1: "Date_now sample_clock = 1700000000123" by (simp add: Date_now_def sample_wall_def)
  have n2: "Date_now sample_clock_1970 = 4217" by (simp add: Date_now_def sample_wall_1970_def)
  note t1 = C2_customer_reference [of Plain sample_clock sample_world ?req no_static]
  note t2 = C2_customer_reference [of Notifying sample_clock_1970 sample_world ?req no_static]
  from t1 a obtain resp w' s'
    where h1: "submit_handler Plain sample_clock sample_world ?req = Inr (resp, w', s')"
    by blast
  from t1 h1 obtain ack
    where "resp = JsonAck ack"
      and "customerNumber ack = ''JN'' @ slice_last 6 (nat_toString (Date_now sample_clock))"
    by blast
  moreover have "slice_last 6 (nat_toString 1700000000123) = ''000123''"
    by (simp add: slice_last_def nat_toString_small nat_toString_large digit_char_def)
  moreover from t1 p have "app Plain no_static sample_clock sample_world (arriving ?req)
      = submit_handler Plain sample_clock sample_world ?req"
    by blast
  ultimately have c1: "\<exists>ack w' s'. app Plain no_static sample_clock sample_world
        (arriving ?req) = Inr (JsonAck ack, w', s') \<and> customerNumber ack = ''JN000123''"
    using h1 n1 by simp
  from t2 a obtain resp2 w2 s2
    where h2: "submit_handler Notifying sample_clock_1970 sample_world ?req = Inr (resp2, w2, s2)"
    by blast
  from t2 h2 obtain ack2
    where "resp2 = JsonAck ack2"
      and "customerNumber ack2
             = ''JN'' @ slice_last 6 (nat_toString (Date_now sample_clock_1970))"
    by blast
  moreover have "slice_last 6 (nat_toString 4217) = ''4217''"
    by (simp add: slice_last_def nat_toString_small nat_toString_large digit_char_def)
  moreover from t2 p have "app Notifying no_static sample_clock_1970 sample_world (arriving ?req)
      = submit_handler Notifying sample_clock_1970 sample_world ?req"
    by blast
  ultimately have c2: "\<exists>ack w' s'. app Notifying no_static sample_clock_1970 sample_world
        (arriving ?req) = Inr (JsonAck ack, w', s') \<and> customerNumber ack = ''JN4217''"
    using h2 n2 by simp
  from t1 m have c3: "wall sample_clock (arrival sample_clock) \<le> Date_now sample_clock"
    by blast
  from c1 c2 c3 n1 n2 show ?thesis by blast
qed

text \<open>
  C3: when the store accepts the insert and the services value is falsy (an absent
  field among them), a string, or an array of strings, \<open>POST /api/submit\<close> answers and
  appends one row whose services column is, in that order of cases, the empty string,
  the string itself, and the strings joined by a comma and a space: the concatenation of
  the strings, each with a comma and a space in front, less its first two characters.
  Each of name, phone, email and message is stored as the submitted string, or as the
  empty string when the field is absent: the column holds a text, never \<open>NULL\<close>.
  Nothing is asked of the text fields, so the request succeeds with all of them absent.
  The application gives the same answer at \<open>POST /api/submit\<close>.
\<close>

theorem C3_stored_fields:
  assumes "accepts_writes (db w)"
    and "\<not> truthy (services (req_body req)) \<or> (\<exists>s. services (req_body req) = JStr s)
         \<or> (\<exists>xs. services (req_body req) = JArr (map JStr xs))"
  shows "\<exists>ack w' row.
           submit_handler v clk w req = Inr (JsonAck ack, w', req_session req)
         \<and> (req_method req = POST \<and> req_path req = ''/api/submit'' \<and> static w req = None
              \<longrightarrow> app v static clk w (arriving req) = Inr (JsonAck ack, w', req_session req))
         \<and> submissions (db w') = submissions (db w) @ [row]
         \<and> (\<not> truthy (services (req_body req)) \<longrightarrow> s_services row = Some [])
         \<and> (\<forall>s. services (req_body req) = JStr s \<longrightarrow> s_services row = Some s)
         \<and> (\<forall>xs. services (req_body req) = JArr (map JStr xs)
                \<longrightarrow> s_services row = Some (drop 2 (concat (map (\<lambda>x. '', '' @ x) xs))))
         \<and> s_name row = Some (case name (req_body req) of None \<Rightarrow> [] | Some x \<Rightarrow> x)
         \<and> s_phone row = Some (case phone (req_body req) of None \<Rightarrow> [] | Some x \<Rightarrow> x)
         \<and> s_email row = Some (case email (req_body req) of None \<Rightarrow> [] | Some x \<Rightarrow> x)
         \<and> s_message row = Some (case message (req_body req) of None \<Rightarrow> [] | Some x \<Rightarrow> x)"
proof -
  from assms(2) obtain csv where csv: "servicesCsv (services (req_body req)) = Inr csv"
    using servicesCsv_falsy servicesCsv_string servicesCsv_strings by metis
  from submit_handler_success [OF csv assms(1), of v clk] obtain w'
    where r: "submit_handler v clk w req =
            Inr (JsonAck \<lparr>ok = True, customerNumber = make_customerNumber clk,
                          submissionDate = toLocaleString_fa_IR clk\<rparr>, w', req_session req)"
      and d: "db w' = (db w)\<lparr>submissions := submissions (db w) @
                 [\<lparr>s_id = Suc (submissions_seq (db w)),
                   s_name = Some (or_str (name (req_body req)) []),
                   s_phone = Some (or_str (phone (req_body req)) []),
                   s_email = Some (or_str (email (req_body req)) []),
                   s_services = Some csv,
                   s_message = Some (or_str (message (req_body req)) []),
                   s_customer_number = Some (make_customerNumber clk),
                   s_submission_date = Some (toLocaleString_fa_IR clk),
                   s_created_at = Some (datetime_now clk)\<rparr>],
               submissions_seq := Suc (submissions_seq (db w))\<rparr>"
    by blast
  have s1: "\<not> truthy (services (req_body req)) \<longrightarrow> csv = []"
    using csv servicesCsv_falsy by auto
  have s2: "\<forall>s. services (req_body req) = JStr s \<longrightarrow> csv = s"
    using csv servicesCsv_string by auto
  have s3: "\<forall>xs. services (req_body req) = JArr (map JStr xs)
      \<longrightarrow> csv = drop 2 (concat (map (\<lambda>x. '', '' @ x) xs))"
    using csv servicesCsv_strings_concat by auto
  have a: "req_method req = POST \<and> req_path req = ''/api/submit'' \<and> static w req = None
      \<longrightarrow> app v static clk w (arriving req) = submit_handler v clk w req"
    by (simp add: app_arriving dispatch_api_submit)
  show ?thesis
    apply (rule exI [of _ "\<lparr>ok = True, customerNumber = make_customerNumber clk,
                          submissionDate = toLocaleString_fa_IR clk\<rparr>"])
    apply (rule exI [of _ w'])
    apply (rule exI [of _ "\<lparr>s_id = Suc (submissions_seq (db w)),
                   s_name = Some (or_str (name (req_body req)) []),
                   s_phone = Some (or_str (phone (req_body req)) []),
                   s_email = Some (or_str (email (req_body req)) []),
                   s_services = Some csv,
                   s_message = Some (or_str (message (req_body req)) []),
                   s_customer_number = Some (make_customerNumber clk),
                   s_submission_date = Some (toLocaleString_fa_IR clk),
                   s_created_at = Some (datetime_now clk)\<rparr>"])
    using r d s1 s2 s3 a by (simp add: or_str_empty)
qed

theorem C3_stored_fields_witness:
  "(\<exists>ack w' row.
      app Plain no_static sample_clock sample_world
        (arriving (sample_request POST ''/api/submit'' None)) = Inr (JsonAck ack, w', None)
    \<and> submissions (db w') = [row] \<and> s_services row = Some ''A, B, C''
    \<and> s_name row = Some [] \<and> s_phone row = Some [] \<and> s_email row = Some []
    \<and> s_message row = Some [])
   \<and> (\<exists>ack w' row.
      app Notifying no_static sample_clock sample_world
        (arriving ((sample_request POST ''/api/submit'' None)
           \<lparr>req_body := sample_body\<lparr>services := JStr ''A'', name := Some ''Sara''\<rparr>\<rparr>))
        = Inr (JsonAck ack, w', None)
    \<and> submissions (db w') = [row] \<and> s_services row = Some ''A''
    \<and> s_name row = Some ''Sara'')
   \<and> (\<exists>ack w' row.
      app Plain no_static sample_clock sample_world
        (arriving ((sample_request POST ''/api/submit'' None)
           \<lparr>req_body := sample_body\<lparr>services := JUndefined\<rparr>\<rparr>))
        = Inr (JsonAck ack, w', None)
    \<and> submissions (db w') = [row] \<and> s_services row = Some [])"
proof -
  let ?r3 = "sample_request POST ''/api/submit'' None"
  let ?r1 = "?r3\<lparr>req_body := sample_body\<lparr>services := JStr ''A'', name := Some ''Sara''\<rparr>\<rparr>"
  let ?r0 = "?r3\<lparr>req_body := sample_body\<lparr>services := JUndefined\<rparr>\<rparr>"
  have a: "accepts_writes (db sample_world)" by simp
  have b3: "\<not> truthy (services (req_body ?r3)) \<or> (\<exists>s. services (req_body ?r3) = JStr s)
         \<or> (\<exists>xs. services (req_body ?r3) = JArr (map JStr xs))"
    by (intro disjI2, rule exI [of _ "[''A'', ''B'', ''C'']"]) simp
  have b1: "\<not> truthy (services (req_body ?r1)) \<or> (\<exists>s. services (req_body ?r1) = JStr s)
         \<or> (\<exists>xs. services (req_body ?r1) = JArr (map JStr xs))"
    by simp
  have b0: "\<not> truthy (services (req_body ?r0)) \<or> (\<exists>s. services (req_body ?r0) = JStr s)
         \<or> (\<exists>xs. services (req_body ?r0) = JArr (map JStr xs))"
    by simp
  from C3_stored_fields [OF a b3, of Plain sample_clock no_static]
  obtain ack w' row where
      "app Plain no_static sample_clock sample_world (arriving ?r3) = Inr (JsonAck ack, w', None)"
    and "submissions (db w') = [row]"
    and x: "\<forall>xs. JArr [JStr ''A'', JStr ''B'', JStr ''C''] = JArr (map JStr xs)
                \<longrightarrow> s_services row = Some (drop 2 (concat (map (\<lambda>x. '', '' @ x) xs)))"
    and "s_name row = Some []" "s_phone row = Some []" "s_email row = Some []"
      "s_message row = Some []"
    by (auto simp add: no_static_def)
  moreover from x have "s_services row
      = Some (drop 2 (concat (map (\<lambda>x. '', '' @ x) [''A'', ''B'', ''C''])))"
    by (rule allE [of _ "[''A'', ''B'', ''C'']"]) simp
  ultimately have c3: "\<exists>ack w' row.
      app Plain no_static sample_clock sample_world (arriving ?r3) = Inr (JsonAck ack, w', None)
    \<and> submissions (db w') = [row] \<and> s_services row = Some ''A, B, C''
    \<and> s_name row = Some [] \<and> s_phone row = Some [] \<and> s_email row = Some []
    \<and> s_message row = Some []"
    by auto
  from C3_stored_fields [OF a b1, of Notifying sample_clock no_static]
  have c1: "\<exists>ack w' row.
      app Notifying no_static sample_clock sample_world (arriving ?r1) = Inr (JsonAck ack, w', None)
    \<and> submissions (db w') = [row] \<and> s_services row = Some ''A''
    \<and> s_name row = Some ''Sara''"
    by (auto simp add: no_static_def)
  from C3_stored_fields [OF a b0, of Plain sample_clock no_static]
  have c0: "\<exists>ack w' row.
      app Plain no_static sample_clock sample_world (arriving ?r0) = Inr (JsonAck ack, w', None)
    \<and> submissions (db w') = [row] \<and> s_services row = Some []"
    by (auto simp add: no_static_def)
  from c3 c1 c0 show ?thesis by blast
qed

text \<open>
  C10: a services value that is truthy and neither a string nor an array makes the
  join throw a TypeError: the handler ends in that exception with the store untouched,
  so no row is inserted, and so does the whole application for \<open>POST /api/submit\<close>.
  On an absent value, a string and an array of strings the normalisation returns.
\<close>

theorem C10_services_type_error:
  "(truthy (services (req_body req)) \<and> (\<forall>s. services (req_body req) \<noteq> JStr s)
      \<and> (\<forall>xs. services (req_body req) \<noteq> JArr xs)
      \<longrightarrow> submit_handler v clk w req = Inl (TypeError, w)
        \<and> (req_method req = POST \<and> req_path req = ''/api/submit'' \<and> static w req = None
             \<longrightarrow> app v static clk w (arriving req) = Inl (TypeError, w)))
   \<and> servicesCsv JUndefined = Inr []
   \<and> (\<forall>s. servicesCsv (JStr s) = Inr s)
   \<and> (\<forall>xs. servicesCsv (JArr (map JStr xs)) = Inr (join_strs '', '' xs))"
proof (intro conjI impI allI)
  assume a: "truthy (services (req_body req)) \<and> (\<forall>s. services (req_body req) \<noteq> JStr s)
      \<and> (\<forall>xs. services (req_body req) \<noteq> JArr xs)"
  then have e: "servicesCsv (services (req_body req)) = Inl TypeError"
    using servicesCsv_other by blast
  then show h: "submit_handler v clk w req = Inl (TypeError, w)"
    by (simp add: submit_handler_eq)
  assume b: "req_method req = POST \<and> req_path req = ''/api/submit'' \<and> static w req = None"
  then have "find_route req = Some ApiSubmit" by (simp add: find_route_api_submit)
  then have "router v clk w req = Inl (TypeError, w)" using h by (simp add: router_def)
  moreover have "startsWith (req_path req) ''/api''" using b by (simp add: startsWith_def)
  ultimately show "app v static clk w (arriving req) = Inl (TypeError, w)"
    using b by (simp add: app_arriving dispatch_def track_visits_skip)
qed (simp_all add: servicesCsv_falsy servicesCsv_string servicesCsv_strings)

theorem C10_services_type_error_witness:
  "app Notifying no_static sample_clock sample_world
      (arriving ((sample_request POST ''/api/submit'' None)
         \<lparr>req_body := sample_body\<lparr>services := JNum 5\<rparr>\<rparr>)) = Inl (TypeError, sample_world)
   \<and> app Plain no_static sample_clock sample_world
      (arriving ((sample_request POST ''/api/submit'' None)
         \<lparr>req_body := sample_body\<lparr>services := JObj [(''join'', JStr ''x'')]\<rparr>\<rparr>))
       = Inl (TypeError, sample_world)"
  using C10_services_type_error [of "(sample_request POST ''/api/submit'' None)
         \<lparr>req_body := sample_body\<lparr>services := JNum 5\<rparr>\<rparr>" Notifying sample_clock sample_world no_static]
    C10_services_type_error [of "(sample_request POST ''/api/submit'' None)
         \<lparr>req_body := sample_body\<lparr>services := JObj [(''join'', JStr ''x'')]\<rparr>\<rparr>" Plain sample_clock
       sample_world no_static]
  by (simp add: no_static_def)

text \<open>
  C1 (as the code has it): for a request the visit middleware records (its path begins
  with neither \<open>/admin\<close> nor \<open>/api\<close>), the chain continues exactly when the insert
  succeeds, with the stored row. The middleware has no \<open>try\<close>: when the insert throws,
  which it does exactly when the store refuses the write, the exception leaves the
  middleware and the application with the world as it was, whatever the rest of the
  chain is; no later handler runs.
\<close>

theorem C1_visit_insert_failure:
  "\<not> startsWith (req_path req) ''/admin'' \<and> \<not> startsWith (req_path req) ''/api'' \<longrightarrow>
     (\<forall>d. insert_visit clk (db w) (visit_ip req) (visit_ua req) (visit_pathStr req) = Inr d
          \<longrightarrow> track_visits clk w req next = next (w\<lparr>db := d\<rparr>))
   \<and> (\<forall>e. insert_visit clk (db w) (visit_ip req) (visit_ua req) (visit_pathStr req) = Inl e
          \<longrightarrow> track_visits clk w req next = Inl (e, w) \<and> app v static clk w (arriving req) = Inl (e, w))
   \<and> ((\<exists>e. insert_visit clk (db w) (visit_ip req) (visit_ua req) (visit_pathStr req) = Inl e)
        = (\<not> accepts_writes (db w)))"
  by (auto simp add: track_visits_insert app_after_insert_failure insert_visit_eq)

theorem C1_visit_insert_failure_witness:
  "track_visits sample_clock sample_world_full (sample_request GET ''/about'' None)
       (\<lambda>w. Inr (NotFound, w, None)) = Inl (SqliteError, sample_world_full)
   \<and> track_visits sample_clock sample_world (sample_request GET ''/about'' None)
       (\<lambda>w. Inr (NotFound, w, None))
     = Inr (NotFound,
         sample_world\<lparr>db := sample_db\<lparr>visits :=
             [\<lparr>v_id = 1, v_ip = Some ''127.0.0.1'', v_ua = Some ''unknown'',
               v_path = Some ''/about'', v_ts = Some ''2023-11-14 22:13:20''\<rparr>],
            visits_seq := 1\<rparr>\<rparr>, None)"
  using C1_visit_insert_failure [of "sample_request GET ''/about'' None" sample_clock
      sample_world_full "\<lambda>w. Inr (NotFound, w, None)" Plain no_static]
    C1_visit_insert_failure [of "sample_request GET ''/about'' None" sample_clock
      sample_world "\<lambda>w. Inr (NotFound, w, None)" Plain no_static]
  by (simp add: startsWith_def insert_visit_eq visit_ip_def visit_ua_def visit_pathStr_def
      or_str_def or_opt_def)

theorem C1_counterexample:
  "insert_visit sample_clock (db sample_world_full)
       (visit_ip (sample_request GET ''/'' None)) (visit_ua (sample_request GET ''/'' None))
       (visit_pathStr (sample_request GET ''/'' None)) = Inl SqliteError
   \<and> app Plain no_static sample_clock sample_world_full (arriving (sample_request GET ''/'' None))
       = Inl (SqliteError, sample_world_full)
   \<and> router Plain sample_clock sample_world_full (sample_request GET ''/'' None)
       = Inr (SendFile ''public/index.html'', sample_world_full, None)"
  by (simp add: insert_visit_def app_arriving dispatch_def track_visits_def startsWith_def router_def
      find_route_def routes_def method_matches_def route_matches_def toLowerCase_char_def
      get_root_def)

text \<open>
  C5: \<open>POST /admin/login\<close> looks the submitted username up in the admins table. When
  the row's password is the submitted password, string for string, the handler sets the
  session's marker and redirects to \<open>/admin\<close>, and the auth gate lets that session
  through. On any mismatch (no row, or another password) it answers 401 with the login
  view and the fixed error message, and leaves the session as it was, so an unset marker
  stays unset. The application routes \<open>POST /admin/login\<close> to this handler.
\<close>

theorem C5_login:
  "(admins (db w) (username (req_body req)) = Some (password (req_body req))
      \<and> req_session req = Some s
      \<longrightarrow> post_admin_login clk w req
            = Inr (Redirect ''/admin'', w, Some (s\<lparr>user := Some ADMIN_USERNAME\<rparr>))
        \<and> requireAuth w (req\<lparr>req_session := Some (s\<lparr>user := Some ADMIN_USERNAME\<rparr>)\<rparr>) k = k)
   \<and> (admins (db w) (username (req_body req)) \<noteq> Some (password (req_body req))
      \<longrightarrow> post_admin_login clk w req
            = Inr (Render 401 (LoginView (Some LOGIN_ERROR)), w, req_session req))
   \<and> (req_method req = POST \<and> req_path req = ''/admin/login'' \<and> static w req = None
      \<longrightarrow> app v static clk w (arriving req) = post_admin_login clk w req)"
proof (intro conjI impI)
  assume a: "req_method req = POST \<and> req_path req = ''/admin/login'' \<and> static w req = None"
  then have f: "find_route req = Some AdminLoginPost" by (simp add: find_route_login_post)
  from a have p: "startsWith (req_path req) ''/admin''" by (simp add: startsWith_def)
  from p a have "app v static clk w (arriving req) = router v clk w req" by (simp add: app_admin_api)
  then show "app v static clk w (arriving req) = post_admin_login clk w req"
    using f by (simp add: router_def)
next
  assume "admins (db w) (username (req_body req)) = Some (password (req_body req))
      \<and> req_session req = Some s"
  then show "post_admin_login clk w req
            = Inr (Redirect ''/admin'', w, Some (s\<lparr>user := Some ADMIN_USERNAME\<rparr>))"
    by (simp add: post_admin_login_eq)
next
  show "requireAuth w (req\<lparr>req_session := Some (s\<lparr>user := Some ADMIN_USERNAME\<rparr>)\<rparr>) k = k"
    by (simp add: requireAuth_def)
next
  assume "admins (db w) (username (req_body req)) \<noteq> Some (password (req_body req))"
  then show "post_admin_login clk w req
            = Inr (Render 401 (LoginView (Some LOGIN_ERROR)), w, req_session req)"
    by (simp add: post_admin_login_eq)
qed

theorem C5_login_witness:
  "app Plain no_static sample_clock sample_world
      (arriving (sample_request POST ''/admin/login'' (Some \<lparr>user = None\<rparr>)))
     = Inr (Redirect ''/admin'', sample_world, Some \<lparr>user = Some ADMIN_USERNAME\<rparr>)
   \<and> app Plain no_static sample_clock sample_world
      (arriving ((sample_request POST ''/admin/login'' (Some \<lparr>user = None\<rparr>))
         \<lparr>req_body := sample_body\<lparr>password := ''guess''\<rparr>\<rparr>))
     = Inr (Render 401 (LoginView (Some LOGIN_ERROR)), sample_world, Some \<lparr>user = None\<rparr>)"
proof -
  let ?good = "sample_request POST ''/admin/login'' (Some \<lparr>user = None\<rparr>)"
  let ?bad = "?good\<lparr>req_body := sample_body\<lparr>password := ''guess''\<rparr>\<rparr>"
  have g1: "admins (db sample_world) (username (req_body ?good)) = Some (password (req_body ?good))
      \<and> req_session ?good = Some \<lparr>user = None\<rparr>"
    by simp
  have g2: "req_method ?good = POST \<and> req_path ?good = ''/admin/login''
      \<and> no_static sample_world ?good = None"
    by (simp add: no_static_def)
  have b1: "admins (db sample_world) (username (req_body ?bad)) \<noteq> Some (password (req_body ?bad))"
    by simp
  have b2: "req_method ?bad = POST \<and> req_path ?bad = ''/admin/login''
      \<and> no_static sample_world ?bad = None"
    by (simp add: no_static_def)
  note tg = C5_login [of sample_world ?good "\<lparr>user = None\<rparr>" sample_clock
      "Inr (NotFound, sample_world, None)" no_static Plain]
  note tb = C5_login [of sample_world ?bad "\<lparr>user = None\<rparr>" sample_clock
      "Inr (NotFound, sample_world, None)" no_static Plain]
  from tg g1 have "post_admin_login sample_clock sample_world ?good
      = Inr (Redirect ''/admin'', sample_world, Some (\<lparr>user = None\<rparr>\<lparr>user := Some ADMIN_USERNAME\<rparr>))"
    by blast
  moreover from tg g2 have "app Plain no_static sample_clock sample_world (arriving ?good)
      = post_admin_login sample_clock sample_world ?good"
    by blast
  moreover from tb b1 have "post_admin_login sample_clock sample_world ?bad
      = Inr (Render 401 (LoginView (Some LOGIN_ERROR)), sample_world, req_session ?bad)"
    by blast
  moreover from tb b2 have "app Plain no_static sample_clock sample_world (arriving ?bad)
      = post_admin_login sample_clock sample_world ?bad"
    by blast
  ultimately show ?thesis by simp
qed

text \<open>
  C6: on each of the seven gated routes (\<open>POST /admin/logout\<close>, \<open>GET /admin\<close>,
  \<open>/admin/submissions\<close>, \<open>/admin/visits\<close>, \<open>/admin/editor\<close>, \<open>POST /admin/editor\<close>
  and \<open>GET /api/stats\<close>) the route's handler runs if and only if the session's
  \<open>user\<close> marker is exactly the fixed admin username. In every other case (another
  marker, no marker, no session) the answer is a redirect to \<open>/admin/login\<close> with
  store, file system and session untouched, so nothing of the handler has run. This holds
  for the chain of each route, for the router whenever it picks such a route, and for the
  application at the seven method and path pairs.
\<close>

theorem C6_auth_gate:
  "(r \<in> {AdminLogout, Admin, AdminSubmissions, AdminVisits, AdminEditorGet, AdminEditorPost,
          ApiStats}
      \<longrightarrow> run_route v r clk w req
            = (if Option.bind (req_session req) user = Some ADMIN_USERNAME
               then handler v r clk w req
               else Inr (Redirect ''/admin/login'', w, req_session req)))
   \<and> (find_route req = Some r \<longrightarrow> router v clk w req = run_route v r clk w req)
   \<and> (\<forall>(m, p, g) \<in> set [(POST, ''/admin/logout'', AdminLogout), (GET, ''/admin'', Admin),
              (GET, ''/admin/submissions'', AdminSubmissions), (GET, ''/admin/visits'', AdminVisits),
              (GET, ''/admin/editor'', AdminEditorGet), (POST, ''/admin/editor'', AdminEditorPost),
              (GET, ''/api/stats'', ApiStats)].
          req_method req = m \<and> req_path req = p \<and> static w req = None
          \<longrightarrow> app v static clk w (arriving req)
                = (if Option.bind (req_session req) user = Some ADMIN_USERNAME
                   then handler v g clk w req
                   else Inr (Redirect ''/admin/login'', w, req_session req)))"
proof (intro conjI impI ballI)
  assume "r \<in> {AdminLogout, Admin, AdminSubmissions, AdminVisits, AdminEditorGet,
                AdminEditorPost, ApiStats}"
  then show "run_route v r clk w req
            = (if Option.bind (req_session req) user = Some ADMIN_USERNAME
               then handler v r clk w req
               else Inr (Redirect ''/admin/login'', w, req_session req))"
    by (simp only: run_route_gate if_True requireAuth_def)
next
  assume "find_route req = Some r"
  then show "router v clk w req = run_route v r clk w req" by (simp add: router_def)
next
  fix x
  assume x: "x \<in> set [(POST, ''/admin/logout'', AdminLogout), (GET, ''/admin'', Admin),
              (GET, ''/admin/submissions'', AdminSubmissions), (GET, ''/admin/visits'', AdminVisits),
              (GET, ''/admin/editor'', AdminEditorGet), (POST, ''/admin/editor'', AdminEditorPost),
              (GET, ''/api/stats'', ApiStats)]"
  obtain m p g where xe: "x = (m, p, g)" by (cases x)
  have gated: "g \<in> {AdminLogout, Admin, AdminSubmissions, AdminVisits, AdminEditorGet,
                AdminEditorPost, ApiStats}"
    using x xe by auto
  have "req_method req = m \<and> req_path req = p \<and> static w req = None
          \<longrightarrow> app v static clk w (arriving req)
                = (if Option.bind (req_session req) user = Some ADMIN_USERNAME
                   then handler v g clk w req
                   else Inr (Redirect ''/admin/login'', w, req_session req))"
  proof
    assume a: "req_method req = m \<and> req_path req = p \<and> static w req = None"
    have "app v static clk w (arriving req) = run_route v g clk w req"
      using x [unfolded xe] a by (intro app_gated_exact [of m p g]) simp_all
    also have "\<dots> = (if Option.bind (req_session req) user = Some ADMIN_USERNAME
                   then handler v g clk w req
                   else Inr (Redirect ''/admin/login'', w, req_session req))"
      using gated by (simp only: run_route_gate if_True requireAuth_def)
    finally show "app v static clk w (arriving req)
                = (if Option.bind (req_session req) user = Some ADMIN_USERNAME
                   then handler v g clk w req
                   else Inr (Redirect ''/admin/login'', w, req_session req))" .
  qed
  then show "case x of (m, p, g) \<Rightarrow>
          req_method req = m \<and> req_path req = p \<and> static w req = None
          \<longrightarrow> app v static clk w (arriving req)
                = (if Option.bind (req_session req) user = Some ADMIN_USERNAME
                   then handler v g clk w req
                   else Inr (Redirect ''/admin/login'', w, req_session req))"
    by (simp add: xe)
qed

theorem C6_auth_gate_witness:
  "app Plain no_static sample_clock sample_world
      (arriving (sample_request GET ''/admin'' (Some \<lparr>user = Some ''admin''\<rparr>)))
     = Inr (Render 200 (DashboardView 0 0 0 []), sample_world, Some \<lparr>user = Some ''admin''\<rparr>)
   \<and> app Plain no_static sample_clock sample_world
      (arriving (sample_request GET ''/admin'' (Some \<lparr>user = Some ''root''\<rparr>)))
     = Inr (Redirect ''/admin/login'', sample_world, Some \<lparr>user = Some ''root''\<rparr>)
   \<and> app Plain no_static sample_clock sample_world (arriving (sample_request GET ''/admin'' None))
     = Inr (Redirect ''/admin/login'', sample_world, None)"
proof -
  let ?in = "sample_request GET ''/admin'' (Some \<lparr>user = Some ''admin''\<rparr>)"
  let ?other = "sample_request GET ''/admin'' (Some \<lparr>user = Some ''root''\<rparr>)"
  let ?none = "sample_request GET ''/admin'' None"
  have m: "(GET, ''/admin'', Admin) \<in> set [(POST, ''/admin/logout'', AdminLogout),
              (GET, ''/admin'', Admin),
              (GET, ''/admin/submissions'', AdminSubmissions), (GET, ''/admin/visits'', AdminVisits),
              (GET, ''/admin/editor'', AdminEditorGet), (POST, ''/admin/editor'', AdminEditorPost),
              (GET, ''/api/stats'', ApiStats)]"
    by simp
  have "app Plain no_static sample_clock sample_world (arriving ?in)
      = (if Option.bind (req_session ?in) user = Some ADMIN_USERNAME
         then handler Plain Admin sample_clock sample_world ?in
         else Inr (Redirect ''/admin/login'', sample_world, req_session ?in))"
    using C6_auth_gate [of Admin Plain sample_clock sample_world ?in no_static,
        THEN conjunct2, THEN conjunct2, THEN bspec, OF m]
    by (simp add: no_static_def)
  moreover have "app Plain no_static sample_clock sample_world (arriving ?other)
      = (if Option.bind (req_session ?other) user = Some ADMIN_USERNAME
         then handler Plain Admin sample_clock sample_world ?other
         else Inr (Redirect ''/admin/login'', sample_world, req_session ?other))"
    using C6_auth_gate [of Admin Plain sample_clock sample_world ?other no_static,
        THEN conjunct2, THEN conjunct2, THEN bspec, OF m]
    by (simp add: no_static_def)
  moreover have "app Plain no_static sample_clock sample_world (arriving ?none)
      = (if Option.bind (req_session ?none) user = Some ADMIN_USERNAME
         then handler Plain Admin sample_clock sample_world ?none
         else Inr (Redirect ''/admin/login'', sample_world, req_session ?none))"
    using C6_auth_gate [of Admin Plain sample_clock sample_world ?none no_static,
        THEN conjunct2, THEN conjunct2, THEN bspec, OF m]
    by (simp add: no_static_def)
  ultimately show ?thesis
    by (simp add: ADMIN_USERNAME_def get_admin_def count_today_def order_by_desc_def)
qed

text \<open>
  C8: for an authenticated request, \<open>GET /admin/editor\<close> renders the editor view with
  the text of the landing-page file, and with the empty string when the file is absent or
  cannot be read; \<open>readFileSync\<close> fails in exactly those two cases and the handler
  swallows the failure, so the request always ends in the rendered view. An authenticated
  \<open>POST /admin/editor\<close>, when the file system takes the write, leaves the file holding
  the submitted content verbatim and redirects to \<open>/admin/editor\<close>.
\<close>

theorem C8_editor:
  "Option.bind (req_session req) user = Some ADMIN_USERNAME \<and> static w req = None \<longrightarrow>
     (req_method req = GET \<and> req_path req = ''/admin/editor''
        \<longrightarrow> app v static clk w (arriving req)
              = Inr (Render 200 (EditorView (case landing_html (fs w) of
                                               None \<Rightarrow> []
                                             | Some c \<Rightarrow> if fs_readable (fs w) then c else [])),
                     w, req_session req))
   \<and> (req_method req = POST \<and> req_path req = ''/admin/editor'' \<and> fs_writable (fs w)
        \<longrightarrow> app v static clk w (arriving req)
              = Inr (Redirect ''/admin/editor'',
                     w\<lparr>fs := (fs w)\<lparr>landing_html := Some (content (req_body req))\<rparr>\<rparr>,
                     req_session req)
          \<and> landing_html (fs (world_after (app v static clk w (arriving req))))
              = Some (content (req_body req)))
   \<and> ((\<exists>e. readFileSync (fs w) = Inl e)
         = (landing_html (fs w) = None \<or> \<not> fs_readable (fs w)))
   \<and> (\<forall>c. (readFileSync (fs w) = Inr c) = (landing_html (fs w) = Some c \<and> fs_readable (fs w)))"
proof (intro impI conjI allI)
  assume a: "Option.bind (req_session req) user = Some ADMIN_USERNAME \<and> static w req = None"
  {
    assume g: "req_method req = GET \<and> req_path req = ''/admin/editor''"
    have "app v static clk w (arriving req) = run_route v AdminEditorGet clk w req"
      using g a by (intro app_gated_exact [of GET "''/admin/editor''"]) simp_all
    then show "app v static clk w (arriving req)
              = Inr (Render 200 (EditorView (case landing_html (fs w) of
                                               None \<Rightarrow> []
                                             | Some c \<Rightarrow> if fs_readable (fs w) then c else [])),
                     w, req_session req)"
      using a by (simp add: requireAuth_def get_admin_editor_eq)
  }
  {
    assume p: "req_method req = POST \<and> req_path req = ''/admin/editor'' \<and> fs_writable (fs w)"
    have "app v static clk w (arriving req) = run_route v AdminEditorPost clk w req"
      using p a by (intro app_gated_exact [of POST "''/admin/editor''"]) simp_all
    then show r: "app v static clk w (arriving req)
              = Inr (Redirect ''/admin/editor'',
                     w\<lparr>fs := (fs w)\<lparr>landing_html := Some (content (req_body req))\<rparr>\<rparr>,
                     req_session req)"
      using a p by (simp add: requireAuth_def post_admin_editor_eq)
    show "landing_html (fs (world_after (app v static clk w (arriving req))))
              = Some (content (req_body req))"
      unfolding r by (simp add: world_after_def)
  }
next
  show "(\<exists>e. readFileSync (fs w) = Inl e)
         = (landing_html (fs w) = None \<or> \<not> fs_readable (fs w))"
    by (simp add: readFileSync_eq split: option.splits)
next
  fix c
  show "(readFileSync (fs w) = Inr c) = (landing_html (fs w) = Some c \<and> fs_readable (fs w))"
    by (simp add: readFileSync_eq split: option.splits)
qed

theorem C8_editor_witness:
  "app Plain no_static sample_clock sample_world
      (arriving (sample_request GET ''/admin/editor'' (Some \<lparr>user = Some ''admin''\<rparr>)))
     = Inr (Render 200 (EditorView ''<h1>Hi</h1>''), sample_world,
            Some \<lparr>user = Some ''admin''\<rparr>)
   \<and> app Plain no_static sample_clock
        (sample_world\<lparr>fs := \<lparr>landing_html = None, fs_readable = True, fs_writable = True\<rparr>\<rparr>)
        (arriving (sample_request GET ''/admin/editor'' (Some \<lparr>user = Some ''admin''\<rparr>)))
     = Inr (Render 200 (EditorView []),
            sample_world\<lparr>fs := \<lparr>landing_html = None, fs_readable = True, fs_writable = True\<rparr>\<rparr>,
            Some \<lparr>user = Some ''admin''\<rparr>)
   \<and> app Plain no_static sample_clock sample_world
      (arriving (sample_request POST ''/admin/editor'' (Some \<lparr>user = Some ''admin''\<rparr>)))
     = Inr (Redirect ''/admin/editor'',
            sample_world\<lparr>fs := \<lparr>landing_html = Some ''<h1>New</h1>'', fs_readable = True,
                                 fs_writable = True\<rparr>\<rparr>,
            Some \<lparr>user = Some ''admin''\<rparr>)"
proof -
  let ?s = "Some \<lparr>user = Some ''admin''\<rparr>"
  let ?w0 = "sample_world\<lparr>fs := \<lparr>landing_html = None, fs_readable = True, fs_writable = True\<rparr>\<rparr>"
  have "app Plain no_static sample_clock sample_world (arriving (sample_request GET ''/admin/editor'' ?s))
     = Inr (Render 200 (EditorView ''<h1>Hi</h1>''), sample_world, ?s)"
    using C8_editor [of "sample_request GET ''/admin/editor'' ?s" no_static sample_world Plain
        sample_clock]
    by (simp add: no_static_def ADMIN_USERNAME_def)
  moreover have "app Plain no_static sample_clock ?w0 (arriving (sample_request GET ''/admin/editor'' ?s))
     = Inr (Render 200 (EditorView []), ?w0, ?s)"
    using C8_editor [of "sample_request GET ''/admin/editor'' ?s" no_static ?w0 Plain
        sample_clock]
    by (simp add: no_static_def ADMIN_USERNAME_def)
  moreover have "app Plain no_static sample_clock sample_world
      (arriving (sample_request POST ''/admin/editor'' ?s))
     = Inr (Redirect ''/admin/editor'',
            sample_world\<lparr>fs := \<lparr>landing_html = Some ''<h1>New</h1>'', fs_readable = True,
                                 fs_writable = True\<rparr>\<rparr>, ?s)"
    using C8_editor [of "sample_request POST ''/admin/editor'' ?s" no_static sample_world Plain
        sample_clock]
    by (simp add: no_static_def ADMIN_USERNAME_def)
  ultimately show ?thesis by simp
qed

text \<open>
  C9: a successful login writes the fixed constant \<open>ADMIN_USERNAME\<close> into the session,
  whatever username was submitted. The startup upsert sets the row of that username and
  leaves every other row of the admins table as it was; so a leftover row for another
  username still logs in after seeding, and the session it yields passes the gate of
  every route. No request stores any other marker: after a request the marker is what it
  was, unset, or \<open>ADMIN_USERNAME\<close>, and over any sequence of requests of a client whose
  stored marker is unset or \<open>ADMIN_USERNAME\<close> it stays one of the two.
\<close>

theorem C9_marker_is_admin_username:
  "(admins (db w) (username (req_body req)) = Some (password (req_body req))
      \<and> req_session req = Some s
      \<longrightarrow> post_admin_login clk w req
            = Inr (Redirect ''/admin'', w, Some (s\<lparr>user := Some ADMIN_USERNAME\<rparr>)))
   \<and> (\<forall>u. u \<noteq> ADMIN_USERNAME \<longrightarrow> admins (seed_admin d) u = admins d u)
   \<and> admins (seed_admin d) ADMIN_USERNAME = Some ADMIN_PASSWORD
   \<and> (\<forall>u p. admins d u = Some p \<and> u \<noteq> ADMIN_USERNAME \<and> username (req_body req) = u
            \<and> password (req_body req) = p \<and> req_session req = Some s
        \<longrightarrow> post_admin_login clk (w\<lparr>db := seed_admin d\<rparr>) req
              = Inr (Redirect ''/admin'', w\<lparr>db := seed_admin d\<rparr>,
                     Some (s\<lparr>user := Some ADMIN_USERNAME\<rparr>))
          \<and> (\<forall>g. run_route v g clk w2 (req2\<lparr>req_session := Some (s\<lparr>user := Some ADMIN_USERNAME\<rparr>)\<rparr>)
                  = handler v g clk w2 (req2\<lparr>req_session := Some (s\<lparr>user := Some ADMIN_USERNAME\<rparr>)\<rparr>)))
   \<and> (\<forall>resp w' s'. app v static clk w (arriving req) = Inr (resp, w', s')
        \<longrightarrow> Option.bind s' user \<in> {Option.bind (req_session req) user, None, Some ADMIN_USERNAME})
   \<and> (Option.bind stored user \<in> {None, Some ADMIN_USERNAME}
        \<longrightarrow> Option.bind (snd (serve v static w stored reqs)) user \<in> {None, Some ADMIN_USERNAME})"
proof (intro conjI allI impI)
  assume "admins (db w) (username (req_body req)) = Some (password (req_body req))
      \<and> req_session req = Some s"
  then show "post_admin_login clk w req
            = Inr (Redirect ''/admin'', w, Some (s\<lparr>user := Some ADMIN_USERNAME\<rparr>))"
    by (simp add: post_admin_login_eq)
next
  fix u assume "u \<noteq> ADMIN_USERNAME"
  then show "admins (seed_admin d) u = admins d u" by (rule seed_admin_other)
next
  show "admins (seed_admin d) ADMIN_USERNAME = Some ADMIN_PASSWORD" by (rule seed_admin_self)
next
  fix u p
  assume a: "admins d u = Some p \<and> u \<noteq> ADMIN_USERNAME \<and> username (req_body req) = u
            \<and> password (req_body req) = p \<and> req_session req = Some s"
  then have "admins (seed_admin d) (username (req_body req)) = Some (password (req_body req))"
    by (simp add: seed_admin_other)
  then show "post_admin_login clk (w\<lparr>db := seed_admin d\<rparr>) req
              = Inr (Redirect ''/admin'', w\<lparr>db := seed_admin d\<rparr>,
                     Some (s\<lparr>user := Some ADMIN_USERNAME\<rparr>))"
    using a by (simp add: post_admin_login_eq)
next
  fix u p g
  show "run_route v g clk w2 (req2\<lparr>req_session := Some (s\<lparr>user := Some ADMIN_USERNAME\<rparr>)\<rparr>)
          = handler v g clk w2 (req2\<lparr>req_session := Some (s\<lparr>user := Some ADMIN_USERNAME\<rparr>)\<rparr>)"
    by (simp add: run_route_gate requireAuth_def del: insert_iff)
next
  fix resp w' s'
  assume "app v static clk w (arriving req) = Inr (resp, w', s')"
  then show "Option.bind s' user \<in> {Option.bind (req_session req) user, None, Some ADMIN_USERNAME}"
    by (rule app_marker)
next
  assume "Option.bind stored user \<in> {None, Some ADMIN_USERNAME}"
  then show "Option.bind (snd (serve v static w stored reqs)) user \<in> {None, Some ADMIN_USERNAME}"
    by (rule serve_marker)
qed

theorem C9_marker_is_admin_username_witness:
  "post_admin_login sample_clock
      (sample_world\<lparr>db := seed_admin (sample_db\<lparr>admins := [''old'' \<mapsto> ''pw'']\<rparr>)\<rparr>)
      ((sample_request POST ''/admin/login'' (Some \<lparr>user = None\<rparr>))
         \<lparr>req_body := sample_body\<lparr>username := ''old'', password := ''pw''\<rparr>\<rparr>)
     = Inr (Redirect ''/admin'',
            sample_world\<lparr>db := seed_admin (sample_db\<lparr>admins := [''old'' \<mapsto> ''pw'']\<rparr>)\<rparr>,
            Some \<lparr>user = Some ADMIN_USERNAME\<rparr>)
   \<and> Option.bind (snd (serve Plain no_static sample_world None
        [(sample_clock, arriving (sample_request POST ''/admin/login'' None)),
         (sample_clock, arriving (sample_request GET ''/admin'' None)),
         (sample_clock, arriving (sample_request POST ''/admin/logout'' None))])) user
       \<in> {None, Some ADMIN_USERNAME}"
proof -
  let ?d = "sample_db\<lparr>admins := [''old'' \<mapsto> ''pw'']\<rparr>"
  let ?req = "(sample_request POST ''/admin/login'' (Some \<lparr>user = None\<rparr>))
         \<lparr>req_body := sample_body\<lparr>username := ''old'', password := ''pw''\<rparr>\<rparr>"
  let ?reqs = "[(sample_clock, arriving (sample_request POST ''/admin/login'' None)),
         (sample_clock, arriving (sample_request GET ''/admin'' None)),
         (sample_clock, arriving (sample_request POST ''/admin/logout'' None))]"
  note t = C9_marker_is_admin_username [of sample_world ?req "\<lparr>user = None\<rparr>" sample_clock ?d
      Plain sample_world ?req no_static None ?reqs]
  have h: "admins ?d ''old'' = Some ''pw'' \<and> ''old'' \<noteq> ADMIN_USERNAME
      \<and> username (req_body ?req) = ''old'' \<and> password (req_body ?req) = ''pw''
      \<and> req_session ?req = Some \<lparr>user = None\<rparr>"
    by (simp add: ADMIN_USERNAME_def)
  have "post_admin_login sample_clock (sample_world\<lparr>db := seed_admin ?d\<rparr>) ?req
     = Inr (Redirect ''/admin'', sample_world\<lparr>db := seed_admin ?d\<rparr>,
            Some (\<lparr>user = None\<rparr>\<lparr>user := Some ADMIN_USERNAME\<rparr>))"
    using t h by blast
  moreover have "Option.bind (None :: session option) user \<in> {None, Some ADMIN_USERNAME}"
    by simp
  then have "Option.bind (snd (serve Plain no_static sample_world None ?reqs)) user
       \<in> {None, Some ADMIN_USERNAME}"
    using t by blast
  ultimately show ?thesis by simp
qed

text \<open>
  C7: an authenticated \<open>GET /api/stats\<close> answers with the statistics of the visits
  table and changes nothing. \<open>byDay\<close> has at most thirty entries; its dates are the
  thirty latest of the distinct calendar dates of the visits, each once, in descending
  order, and each entry carries the number of visits of its date, which is positive.
  \<open>byPath\<close> has one entry for each distinct path with the number of visits of that
  path, in descending order of the numbers. \<open>total\<close> is the number of visit rows and
  \<open>today\<close> the number of rows whose timestamp has the calendar date of the store's
  clock.
\<close>

theorem C7_stats:
  "Option.bind (req_session req) user = Some ADMIN_USERNAME \<and> req_method req = GET
     \<and> req_path req = ''/api/stats'' \<and> static w req = None \<longrightarrow>
   (\<exists>st. app v static clk w (arriving req) = Inr (JsonStats st, w, req_session req)
      \<and> length (byDay st) \<le> 30
      \<and> map fst (byDay st)
          = take 30 (rev (sorted_list_of_set ((\<lambda>x. sql_date (v_ts x)) ` set (visits (db w)))))
      \<and> distinct (map fst (byDay st))
      \<and> sorted_wrt (\<lambda>a b. b \<le> a) (map fst (byDay st))
      \<and> (\<forall>(d, n) \<in> set (byDay st).
            n = length (filter (\<lambda>x. sql_date (v_ts x) = d) (visits (db w))) \<and> 0 < n)
      \<and> fst ` set (byPath st) = v_path ` set (visits (db w))
      \<and> distinct (map fst (byPath st))
      \<and> (\<forall>(p, n) \<in> set (byPath st).
            n = length (filter (\<lambda>x. v_path x = p) (visits (db w))))
      \<and> sorted_wrt (\<lambda>a b. b \<le> a) (map snd (byPath st))
      \<and> total st = length (visits (db w))
      \<and> today st = length (filter (\<lambda>x. \<exists>t. v_ts x = Some t
                                          \<and> take 10 t = take 10 (datetime_now clk))
                               (visits (db w))))"
proof
  assume a: "Option.bind (req_session req) user = Some ADMIN_USERNAME \<and> req_method req = GET
     \<and> req_path req = ''/api/stats'' \<and> static w req = None"
  let ?vs = "visits (db w)"
  let ?day = "\<lambda>x. sql_date (v_ts x)"
  define days where "days = take 30 (order_by_desc fst (group_count ?day ?vs))"
  define paths where "paths = order_by_desc snd (group_count v_path ?vs)"
  define st where "st = \<lparr>total = length ?vs, today = count_today clk ?vs, byDay = days,
      byPath = paths\<rparr>"
  have "app v static clk w (arriving req) = run_route v ApiStats clk w req"
    using a by (intro app_gated_exact [of GET "''/api/stats''"]) simp_all
  then have r: "app v static clk w (arriving req) = Inr (JsonStats st, w, req_session req)"
    using a by (simp add: requireAuth_def get_api_stats_eq st_def days_def paths_def)
  have keys: "map fst days = take 30 (rev (sorted_list_of_set (?day ` set ?vs)))"
    by (simp add: days_def take_map [symmetric] order_by_desc_group_keys)
  have len: "length days \<le> 30" by (simp add: days_def)
  have dist: "distinct (map fst days)"
    unfolding keys by (intro distinct_take) simp
  have "sorted_wrt (\<lambda>a b. b \<le> a) (map fst (order_by_desc fst (group_count ?day ?vs)))"
    by (rule order_by_desc_sorted)
  then have "sorted_wrt (\<lambda>a b. b \<le> a)
      (take 30 (map fst (order_by_desc fst (group_count ?day ?vs))))"
    by (rule sorted_wrt_take)
  then have srt: "sorted_wrt (\<lambda>a b. b \<le> a) (map fst days)"
    by (simp add: days_def take_map)
  have ent: "\<forall>(d, n) \<in> set days. n = length (filter (\<lambda>x. ?day x = d) ?vs) \<and> 0 < n"
  proof (intro ballI, clarify)
    fix d n assume "(d, n) \<in> set days"
    then have "(d, n) \<in> set (group_count ?day ?vs)"
      by (auto simp add: days_def order_by_desc_set dest: in_set_takeD)
    from group_count_entry [OF this]
    have k: "d \<in> ?day ` set ?vs" and n: "n = length (filter (\<lambda>x. ?day x = d) ?vs)"
      by simp_all
    from k have "filter (\<lambda>x. ?day x = d) ?vs \<noteq> []"
      by (auto simp add: filter_empty_conv)
    with n show "n = length (filter (\<lambda>x. ?day x = d) ?vs) \<and> 0 < n" by simp
  qed
  have pk: "fst ` set paths = v_path ` set ?vs"
  proof -
    have "fst ` set paths = set (map fst (group_count v_path ?vs))"
      by (simp add: paths_def order_by_desc_set)
    then show ?thesis by (simp add: group_count_keys)
  qed
  have pd: "distinct (map fst paths)"
    by (simp add: paths_def order_by_desc_distinct_map group_count_keys)
  have pe: "\<forall>(p, n) \<in> set paths. n = length (filter (\<lambda>x. v_path x = p) ?vs)"
    using group_count_entry(2) [of _ _ v_path ?vs]
    by (auto simp add: paths_def order_by_desc_set)
  have ps: "sorted_wrt (\<lambda>a b. b \<le> a) (map snd paths)"
    unfolding paths_def by (rule order_by_desc_sorted)
  have td: "today st = length (filter (\<lambda>x. \<exists>t. v_ts x = Some t
                                          \<and> take 10 t = take 10 (datetime_now clk)) ?vs)"
    by (simp add: st_def count_today_eq)
  show "\<exists>st. app v static clk w (arriving req) = Inr (JsonStats st, w, req_session req)
      \<and> length (byDay st) \<le> 30
      \<and> map fst (byDay st)
          = take 30 (rev (sorted_list_of_set ((\<lambda>x. sql_date (v_ts x)) ` set (visits (db w)))))
      \<and> distinct (map fst (byDay st))
      \<and> sorted_wrt (\<lambda>a b. b \<le> a) (map fst (byDay st))
      \<and> (\<forall>(d, n) \<in> set (byDay st).
            n = length (filter (\<lambda>x. sql_date (v_ts x) = d) (visits (db w))) \<and> 0 < n)
      \<and> fst ` set (byPath st) = v_path ` set (visits (db w))
      \<and> distinct (map fst (byPath st))
      \<and> (\<forall>(p, n) \<in> set (byPath st).
            n = length (filter (\<lambda>x. v_path x = p) (visits (db w))))
      \<and> sorted_wrt (\<lambda>a b. b \<le> a) (map snd (byPath st))
      \<and> total st = length (visits (db w))
      \<and> today st = length (filter (\<lambda>x. \<exists>t. v_ts x = Some t
                                          \<and> take 10 t = take 10 (datetime_now clk))
                               (visits (db w)))"
    apply (rule exI [of _ st])
    using r keys len dist srt ent pk pd pe ps td by (simp add: st_def)
qed

theorem C7_stats_witness:
  "app Plain no_static sample_clock
      (sample_world\<lparr>db := sample_db\<lparr>visits := sample_visits, visits_seq := 3\<rparr>\<rparr>)
      (arriving (sample_request GET ''/api/stats'' (Some \<lparr>user = Some ''admin''\<rparr>)))
     = Inr (JsonStats
              \<lparr>total = 3, today = 2,
               byDay = [(Some ''2023-11-14'', 2), (Some ''2023-11-13'', 1)],
               byPath = [(Some ''/'', 2), (Some ''/pricing'', 1)]\<rparr>,
            sample_world\<lparr>db := sample_db\<lparr>visits := sample_visits, visits_seq := 3\<rparr>\<rparr>,
            Some \<lparr>user = Some ''admin''\<rparr>)"
proof -
  let ?w = "sample_world\<lparr>db := sample_db\<lparr>visits := sample_visits, visits_seq := 3\<rparr>\<rparr>"
  let ?req = "sample_request GET ''/api/stats'' (Some \<lparr>user = Some ''admin''\<rparr>)"
  have h: "Option.bind (req_session ?req) user = Some ADMIN_USERNAME \<and> req_method ?req = GET
     \<and> req_path ?req = ''/api/stats'' \<and> no_static ?w ?req = None"
    by (simp add: ADMIN_USERNAME_def no_static_def)
  from C7_stats [of ?req no_static ?w Plain sample_clock] h
  obtain st where r: "app Plain no_static sample_clock ?w (arriving ?req) = Inr (JsonStats st, ?w, req_session ?req)"
    and len: "length (byDay st) \<le> 30"
    and tot: "total st = length (visits (db ?w))"
    by blast
  have "app Plain no_static sample_clock ?w (arriving ?req) = run_route Plain ApiStats sample_clock ?w ?req"
    by (intro app_gated_exact [of GET "''/api/stats''"]) (simp_all add: no_static_def)
  also have "\<dots> = Inr (JsonStats
              \<lparr>total = 3, today = 2,
               byDay = [(Some ''2023-11-14'', 2), (Some ''2023-11-13'', 1)],
               byPath = [(Some ''/'', 2), (Some ''/pricing'', 1)]\<rparr>, ?w, req_session ?req)"
    by (simp add: requireAuth_def ADMIN_USERNAME_def get_api_stats_eq count_today_def
        sql_eq_def sql_date_def order_by_desc_def group_count_def)
  finally have e: "app Plain no_static sample_clock ?w (arriving ?req) = Inr (JsonStats
              \<lparr>total = 3, today = 2,
               byDay = [(Some ''2023-11-14'', 2), (Some ''2023-11-13'', 1)],
               byPath = [(Some ''/'', 2), (Some ''/pricing'', 1)]\<rparr>, ?w, req_session ?req)" .
  from r tot e show ?thesis by simp
qed

text \<open>
  C4 (as the code has it): a path begins with a prefix when it is the prefix followed by
  some rest. A request whose path begins with \<open>/admin\<close> or \<open>/api\<close> never gets a visit
  row, whatever becomes of it. A request that the body parsers and the
  session middleware pass on, whose path begins with neither prefix, gets exactly one row
  when the store accepts the insert: the row is appended before the rest of the chain
  runs, no later handler touches the table, its path column is the request path (a
  request path is never empty) and its ip and user-agent columns are the values the
  middleware extracted. A request that the body parsers or the session middleware end
  with an error never reaches the visit middleware and leaves the store as it was, and
  so does a request whose insert the store refuses. Every incoming request is of one of
  these kinds: ended early, or passed on as some \<open>req\<close>.
\<close>

theorem C4_visit_rows:
  "(\<forall>s p. startsWith s p = (\<exists>rest. s = p @ rest))
   \<and> (startsWith (in_path inc) ''/admin'' \<or> startsWith (in_path inc) ''/api''
      \<longrightarrow> visits (db (world_after (app v static clk w inc))) = visits (db w))
   \<and> (startsWith (req_path req) ''/admin'' \<or> startsWith (req_path req) ''/api''
      \<longrightarrow> track_visits clk w req next = next w)
   \<and> (\<not> startsWith (req_path req) ''/admin'' \<and> \<not> startsWith (req_path req) ''/api''
        \<and> accepts_writes (db w) \<and> req_path req \<noteq> []
      \<longrightarrow> (\<exists>row. v_path row = Some (req_path req)
             \<and> v_ip row = Some (visit_ip req) \<and> v_ua row = Some (visit_ua req)
             \<and> track_visits clk w req next
                 = next (w\<lparr>db := (db w)\<lparr>visits := visits (db w) @ [row],
                                         visits_seq := Suc (visits_seq (db w))\<rparr>\<rparr>)
             \<and> visits (db (world_after (app v static clk w (arriving req))))
                 = visits (db w) @ [row]))
   \<and> (\<forall>e. body_parsers inc = Inl e \<or> session_middleware inc = Inl e
          \<longrightarrow> world_after (app v static clk w inc) = w)
   \<and> (\<forall>b s. body_parsers inc = Inr b \<and> session_middleware inc = Inr s
          \<longrightarrow> (\<exists>r. inc = arriving r \<and> req_path r = in_path inc))
   \<and> (\<not> startsWith (req_path req) ''/admin'' \<and> \<not> startsWith (req_path req) ''/api''
        \<and> \<not> accepts_writes (db w)
      \<longrightarrow> world_after (app v static clk w (arriving req)) = w)"
proof (intro conjI impI allI)
  fix s p
  show "startsWith s p = (\<exists>rest. s = p @ rest)" by (rule startsWith_append)
next
  assume "startsWith (in_path inc) ''/admin'' \<or> startsWith (in_path inc) ''/api''"
  then show "visits (db (world_after (app v static clk w inc))) = visits (db w)"
    by (rule app_skip_visits)
next
  assume p: "startsWith (req_path req) ''/admin'' \<or> startsWith (req_path req) ''/api''"
  then show "track_visits clk w req next = next w" by (rule track_visits_skip)
next
  assume a: "\<not> startsWith (req_path req) ''/admin'' \<and> \<not> startsWith (req_path req) ''/api''
        \<and> accepts_writes (db w) \<and> req_path req \<noteq> []"
  define row where "row = \<lparr>v_id = Suc (visits_seq (db w)), v_ip = Some (visit_ip req),
      v_ua = Some (visit_ua req), v_path = Some (visit_pathStr req),
      v_ts = Some (datetime_now clk)\<rparr>"
  define w1 where "w1 = w\<lparr>db := (db w)\<lparr>visits := visits (db w) @ [row],
                                         visits_seq := Suc (visits_seq (db w))\<rparr>\<rparr>"
  have t: "\<And>k. track_visits clk w req k = k w1"
    using a by (simp add: track_visits_insert insert_visit_eq row_def w1_def)
  have "visit_pathStr req = req_path req" using a by (simp add: visit_pathStr_def or_str_Some)
  then have r: "v_path row = Some (req_path req)" by (simp add: row_def)
  have "visits (db (world_after (dispatch v static clk w req))) = visits (db w1)"
    unfolding dispatch_def t by (rule after_static_visits)
  then have "visits (db (world_after (app v static clk w (arriving req)))) = visits (db w) @ [row]"
    by (simp add: w1_def app_arriving)
  with r t [of "next"] show "\<exists>row. v_path row = Some (req_path req)
             \<and> v_ip row = Some (visit_ip req) \<and> v_ua row = Some (visit_ua req)
             \<and> track_visits clk w req next
                 = next (w\<lparr>db := (db w)\<lparr>visits := visits (db w) @ [row],
                                         visits_seq := Suc (visits_seq (db w))\<rparr>\<rparr>)
             \<and> visits (db (world_after (app v static clk w (arriving req))))
                 = visits (db w) @ [row]"
    by (intro exI [of _ row]) (simp add: w1_def row_def)
next
  fix e
  assume "body_parsers inc = Inl e \<or> session_middleware inc = Inl e"
  then show "world_after (app v static clk w inc) = w" by (rule app_ended_early)
next
  fix b s
  assume "body_parsers inc = Inr b \<and> session_middleware inc = Inr s"
  then show "\<exists>r. inc = arriving r \<and> req_path r = in_path inc"
    using incoming_passed [of inc b s] by blast
next
  assume "\<not> startsWith (req_path req) ''/admin'' \<and> \<not> startsWith (req_path req) ''/api''
        \<and> \<not> accepts_writes (db w)"
  then show "world_after (app v static clk w (arriving req)) = w"
    by (simp add: app_arriving dispatch_insert_refused world_after_def)
qed

theorem C4_visit_rows_witness:
  "map v_path (visits (db (world_after
      (app Plain no_static sample_clock sample_world
         (arriving (sample_request GET ''/pricing'' None))))))
     = [Some ''/pricing'']
   \<and> visits (db (world_after
      (app Plain no_static sample_clock sample_world
         (arriving (sample_request GET ''/admin/visits'' None)))))
     = []
   \<and> visits (db (world_after
      (app Plain no_static sample_clock sample_world
         (arriving (sample_request POST ''/api/submit'' None)))))
     = []
   \<and> world_after (app Plain no_static sample_clock sample_world (sample_malformed POST ''/pricing''))
     = sample_world
   \<and> world_after (app Plain no_static sample_clock sample_world_full
         (arriving (sample_request GET ''/pricing'' None)))
     = sample_world_full"
proof -
  let ?k = "\<lambda>w. Inr (NotFound, w, None)"
  have "\<exists>row. v_path row = Some ''/pricing''
      \<and> visits (db (world_after
          (app Plain no_static sample_clock sample_world
             (arriving (sample_request GET ''/pricing'' None)))))
        = [row]"
    using C4_visit_rows [of "arriving (sample_request GET ''/pricing'' None)" Plain no_static
        sample_clock sample_world "sample_request GET ''/pricing'' None" ?k, THEN conjunct2]
    by (auto simp add: startsWith_def)
  moreover have "visits (db (world_after
      (app Plain no_static sample_clock sample_world
         (arriving (sample_request GET ''/admin/visits'' None)))))
     = []"
    using C4_visit_rows [of "arriving (sample_request GET ''/admin/visits'' None)" Plain
        no_static sample_clock sample_world "sample_request GET ''/admin/visits'' None" ?k, THEN conjunct2]
    by (simp add: startsWith_def arriving_def)
  moreover have "visits (db (world_after
      (app Plain no_static sample_clock sample_world
         (arriving (sample_request POST ''/api/submit'' None)))))
     = []"
    using C4_visit_rows [of "arriving (sample_request POST ''/api/submit'' None)" Plain
        no_static sample_clock sample_world "sample_request POST ''/api/submit'' None" ?k, THEN conjunct2]
    by (simp add: startsWith_def arriving_def)
  moreover have "world_after (app Plain no_static sample_clock sample_world
        (sample_malformed POST ''/pricing'')) = sample_world"
    using C4_visit_rows [of "sample_malformed POST ''/pricing''" Plain no_static sample_clock
        sample_world "sample_request GET ''/pricing'' None" ?k, THEN conjunct2]
    by (simp add: body_parsers_def)
  moreover have "world_after (app Plain no_static sample_clock sample_world_full
         (arriving (sample_request GET ''/pricing'' None))) = sample_world_full"
    using C4_visit_rows [of "arriving (sample_request GET ''/pricing'' None)" Plain no_static
        sample_clock sample_world_full "sample_request GET ''/pricing'' None" ?k, THEN conjunct2]
    by (simp add: startsWith_def)
  ultimately show ?thesis by auto
qed

theorem C4_counterexample:
  "\<not> startsWith ''/pricing'' ''/admin'' \<and> \<not> startsWith ''/pricing'' ''/api''
   \<and> in_path (sample_malformed POST ''/pricing'') = ''/pricing''
   \<and> app Plain no_static sample_clock sample_world (sample_malformed POST ''/pricing'')
       = Inl (BadRequest, sample_world)
   \<and> visits (db (world_after
        (app Plain no_static sample_clock sample_world (sample_malformed POST ''/pricing''))))
       = visits (db sample_world)
   \<and> visits (db (world_after
        (app Plain no_static sample_clock sample_world_full
           (arriving (sample_request GET ''/pricing'' None)))))
       = visits (db sample_world_full)"
  by (simp add: startsWith_def app_def body_parsers_def session_middleware_def arriving_def
      world_after_def dispatch_def track_visits_def insert_visit_def)

end
